theory Spec2Isabelle
  imports Main "HOL-Library.Char_ord" "HOL-Library.List_Lexorder" "HOL-Library.Multiset"
    "HOL-Library.Monad_Syntax" "HOL-Library.Code_Target_Numeral"
begin

section \<open>Text and numbers\<close>

text \<open>
  Python strings are modelled as \<open>string\<close>; the texts the program builds itself (dates,
  identifiers, separators) are ASCII.  With \<open>Char_ord\<close> and \<open>List_Lexorder\<close> the order
  \<open>\<le>\<close> on strings is the bytewise lexicographic order, which is the order of SQLite's
  default BINARY collation on TEXT values.
\<close>

definition digit_char :: "nat \<Rightarrow> char" where
  "digit_char n = char_of (48 + n)"

definition is_digit :: "char \<Rightarrow> bool" where
  "is_digit c = (48 \<le> (of_char c :: nat) \<and> (of_char c :: nat) \<le> 57)"

definition digit_val :: "char \<Rightarrow> nat" where
  "digit_val c = of_char c - 48"

text \<open>\<open>zpad w n\<close> is Python's \<open>'%0wd' % n\<close> for \<open>n < 10 ^ w\<close>, the only use the program
  makes of it (every field of a date or time is range-checked when the value is built).\<close>

fun zpad :: "nat \<Rightarrow> nat \<Rightarrow> string" where
  "zpad 0 n = []"
| "zpad (Suc w) n = zpad w (n div 10) @ [digit_char (n mod 10)]"

text \<open>\<open>str_nat n\<close> is Python's \<open>str(n)\<close> for a non-negative integer.\<close>

function str_nat :: "nat \<Rightarrow> string" where
  "str_nat n = (if n < 10 then [digit_char n] else str_nat (n div 10) @ [digit_char (n mod 10)])"
  by pat_completeness auto
termination
  by (relation "measure id") auto

text \<open>Reading a run of decimal digits, most significant first, onto an accumulator.\<close>

fun digits_val :: "nat \<Rightarrow> string \<Rightarrow> nat" where
  "digits_val acc [] = acc"
| "digits_val acc (c # cs) = digits_val (10 * acc + digit_val c) cs"

text \<open>\<open>take_digits w s\<close> reads exactly \<open>w\<close> digits from the front of \<open>s\<close> and returns their
  value and the rest; \<open>None\<close> when \<open>s\<close> is shorter or a character is not a digit.\<close>

definition take_digits :: "nat \<Rightarrow> string \<Rightarrow> (nat \<times> string) option" where
  "take_digits w s =
     (if w \<le> length s \<and> list_all is_digit (take w s)
      then Some (digits_val 0 (take w s), drop w s) else None)"

text \<open>\<open>expect c s\<close> consumes the single character \<open>c\<close>.\<close>

fun expect :: "char \<Rightarrow> string \<Rightarrow> string option" where
  "expect c [] = None"
| "expect c (x # xs) = (if x = c then Some xs else None)"

section \<open>Dates and date-times (Python's datetime module)\<close>

record date =
  year :: nat
  month :: nat
  day :: nat

definition is_leap :: "nat \<Rightarrow> bool" where
  "is_leap y = (y mod 4 = 0 \<and> (y mod 100 \<noteq> 0 \<or> y mod 400 = 0))"

definition days_in_month :: "nat \<Rightarrow> nat \<Rightarrow> nat" where
  "days_in_month y m =
     (if m = 2 then (if is_leap y then 29 else 28)
      else if m = 4 \<or> m = 6 \<or> m = 9 \<or> m = 11 then 30 else 31)"

text \<open>The range check of the \<open>date(year, month, day)\<close> constructor.\<close>

definition valid_date :: "date \<Rightarrow> bool" where
  "valid_date d =
     (1 \<le> year d \<and> year d \<le> 9999 \<and> 1 \<le> month d \<and> month d \<le> 12 \<and>
      1 \<le> day d \<and> day d \<le> days_in_month (year d) (month d))"

text \<open>\<open>str(d)\<close>, that is \<open>d.isoformat()\<close>: \<open>YYYY-MM-DD\<close>.\<close>

definition date_isoformat :: "date \<Rightarrow> string" where
  "date_isoformat d = zpad 4 (year d) @ ''-'' @ zpad 2 (month d) @ ''-'' @ zpad 2 (day d)"

text \<open>Comparison of dates is the comparison of \<open>(year, month, day)\<close>.\<close>

definition date_less :: "date \<Rightarrow> date \<Rightarrow> bool" where
  "date_less a b =
     (year a < year b \<or> (year a = year b \<and>
       (month a < month b \<or> (month a = month b \<and> day a < day b))))"

text \<open>The ten characters \<open>YYYY-MM-DD\<close> at the front of a string, and what follows them.\<close>

definition parse_isoformat_date :: "string \<Rightarrow> (date \<times> string) option" where
  "parse_isoformat_date s = do {
     (y, s1) \<leftarrow> take_digits 4 s;
     s2 \<leftarrow> expect CHR ''-'' s1;
     (m, s3) \<leftarrow> take_digits 2 s2;
     s4 \<leftarrow> expect CHR ''-'' s3;
     (d, s5) \<leftarrow> take_digits 2 s4;
     Some (\<lparr>year = y, month = m, day = d\<rparr>, s5)
   }"

text \<open>\<open>date.fromisoformat\<close>: exactly \<open>YYYY-MM-DD\<close>, then the constructor's range check;
  \<open>None\<close> stands for the \<open>ValueError\<close>.\<close>

definition date_fromisoformat :: "string \<Rightarrow> date option" where
  "date_fromisoformat s =
     (case parse_isoformat_date s of
        Some (d, []) \<Rightarrow> (if valid_date d then Some d else None)
      | _ \<Rightarrow> None)"

text \<open>
  A \<open>datetime\<close>: the date, the time of day, and \<open>tzinfo\<close>, the UTC offset in microseconds
  of an aware value (\<open>None\<close> for a naive one).
\<close>

record datetime =
  date_of :: date
  hour :: nat
  minute :: nat
  second :: nat
  microsecond :: nat
  tzinfo :: "int option"

definition valid_datetime :: "datetime \<Rightarrow> bool" where
  "valid_datetime t =
     (valid_date (date_of t) \<and> hour t < 24 \<and> minute t < 60 \<and> second t < 60 \<and>
      microsecond t < 1000000 \<and>
      (case tzinfo t of None \<Rightarrow> True
       | Some off \<Rightarrow> - 86400000000 < off \<and> off < 86400000000))"

text \<open>The fraction of a second: \<open>.fff\<close> or \<open>.ffffff\<close>.\<close>

definition parse_fraction :: "string \<Rightarrow> nat option" where
  "parse_fraction s = do {
     f \<leftarrow> expect CHR ''.'' s;
     if length f = 3 \<and> list_all is_digit f then Some (digits_val 0 f * 1000)
     else if length f = 6 \<and> list_all is_digit f then Some (digits_val 0 f)
     else None
   }"

text \<open>\<open>HH[:MM[:SS[.fff[fff]]]]\<close>, as hours, minutes, seconds and microseconds.\<close>

definition parse_hh_mm_ss_ff :: "string \<Rightarrow> (nat \<times> nat \<times> nat \<times> nat) option" where
  "parse_hh_mm_ss_ff s = do {
     (h, s1) \<leftarrow> take_digits 2 s;
     if s1 = [] then Some (h, 0, 0, 0) else do {
       s2 \<leftarrow> expect CHR '':'' s1;
       (m, s3) \<leftarrow> take_digits 2 s2;
       if s3 = [] then Some (h, m, 0, 0) else do {
         s4 \<leftarrow> expect CHR '':'' s3;
         (sec, s5) \<leftarrow> take_digits 2 s4;
         if s5 = [] then Some (h, m, sec, 0) else do {
           us \<leftarrow> parse_fraction s5;
           Some (h, m, sec, us)
         }
       }
     }
   }"

text \<open>The part of a time string before the first sign character, the sign, and the rest.\<close>

fun split_sign :: "string \<Rightarrow> string \<times> (char \<times> string) option" where
  "split_sign [] = ([], None)"
| "split_sign (c # cs) =
     (if c = CHR ''+'' \<or> c = CHR ''-'' then ([], Some (c, cs))
      else (case split_sign cs of (a, r) \<Rightarrow> (c # a, r)))"

text \<open>The offset \<open>HH:MM[:SS[.ffffff]]\<close> after the sign, in microseconds.  An offset of
  zero whole seconds is UTC, whatever the sign and the fraction.\<close>

definition parse_tz :: "char \<Rightarrow> string \<Rightarrow> int option" where
  "parse_tz sign s =
     (if length s \<noteq> 5 \<and> length s \<noteq> 8 \<and> length s \<noteq> 15 then None
      else do {
        (h, m, sec, us) \<leftarrow> parse_hh_mm_ss_ff s;
        let secs = (h * 60 + m) * 60 + sec;
        let td = int (secs * 1000000 + us);
        Some (if secs = 0 then 0 else if sign = CHR ''-'' then - td else td)
      })"

text \<open>\<open>HH[:MM[:SS[.fff[fff]]]][+HH:MM[:SS[.ffffff]]]\<close>.\<close>

definition parse_isoformat_time :: "string \<Rightarrow> ((nat \<times> nat \<times> nat \<times> nat) \<times> int option) option" where
  "parse_isoformat_time s =
     (case split_sign s of
        (ts, None) \<Rightarrow> do { t \<leftarrow> parse_hh_mm_ss_ff ts; Some (t, None) }
      | (ts, Some (sign, zs)) \<Rightarrow>
          do { t \<leftarrow> parse_hh_mm_ss_ff ts; off \<leftarrow> parse_tz sign zs; Some (t, Some off) })"

text \<open>
  \<open>datetime.fromisoformat\<close>, for the format it documents as the inverse of
  \<open>isoformat\<close>: \<open>YYYY-MM-DD[*HH[:MM[:SS[.fff[fff]]]][+HH:MM[:SS[.ffffff]]]]\<close>, where \<open>*\<close> is
  any one character.  \<open>make_datetime\<close> is the constructor with its range check.
  \<open>None\<close> stands for the \<open>ValueError\<close>.
\<close>

definition make_datetime :: "date \<Rightarrow> nat \<times> nat \<times> nat \<times> nat \<Rightarrow> int option \<Rightarrow> datetime option" where
  "make_datetime d t tz =
     (case t of (h, m, sec, us) \<Rightarrow>
        (let v = \<lparr>date_of = d, hour = h, minute = m, second = sec, microsecond = us,
                   tzinfo = tz\<rparr>
         in if valid_datetime v then Some v else None))"

definition fromisoformat :: "string \<Rightarrow> datetime option" where
  "fromisoformat s = do {
     (d, rest) \<leftarrow> parse_isoformat_date s;
     (case rest of
        [] \<Rightarrow> make_datetime d (0, 0, 0, 0) None
      | sep # ts \<Rightarrow> do { (t, tz) \<leftarrow> parse_isoformat_time ts; make_datetime d t tz })
   }"

text \<open>The UTC offset as \<open>isoformat\<close> prints it.\<close>

definition format_offset :: "int option \<Rightarrow> string" where
  "format_offset tz =
     (case tz of None \<Rightarrow> []
      | Some off \<Rightarrow>
          (let a = nat \<bar>off\<bar>;
               hh = a div 3600000000;
               mm = (a mod 3600000000) div 60000000;
               ss = (a mod 60000000) div 1000000;
               us = a mod 1000000
           in (if off < 0 then ''-'' else ''+'') @ zpad 2 hh @ '':'' @ zpad 2 mm @
              (if ss \<noteq> 0 \<or> us \<noteq> 0
               then '':'' @ zpad 2 ss @ (if us \<noteq> 0 then ''.'' @ zpad 6 us else [])
               else [])))"

text \<open>The time of day as \<open>isoformat\<close> prints it: \<open>HH:MM:SS\<close>, then \<open>.ffffff\<close> when the
  microsecond is not zero.\<close>

definition format_time :: "datetime \<Rightarrow> string" where
  "format_time t =
     zpad 2 (hour t) @ '':'' @ zpad 2 (minute t) @ '':'' @ zpad 2 (second t) @
     (if microsecond t \<noteq> 0 then ''.'' @ zpad 6 (microsecond t) else [])"

text \<open>\<open>t.isoformat()\<close>: the date, \<open>T\<close>, the time, then the offset of an aware value.\<close>

definition isoformat :: "datetime \<Rightarrow> string" where
  "isoformat t =
     date_isoformat (date_of t) @ ''T'' @ format_time t @ format_offset (tzinfo t)"

text \<open>
  Ordering of date-times, as \<open>datetime.__lt__\<close> and \<open>__le__\<close> decide it: two values with
  the same UTC offset (or both naive) are compared field by field; two aware values with
  different offsets are compared as instants; a naive and an aware value cannot be
  compared (\<open>TypeError\<close>, here \<open>None\<close>).
\<close>

definition base_fields :: "datetime \<Rightarrow> nat list" where
  "base_fields t = [year (date_of t), month (date_of t), day (date_of t),
               hour t, minute t, second t, microsecond t]"

definition days_before_year :: "nat \<Rightarrow> nat" where
  "days_before_year y = (y - 1) * 365 + (y - 1) div 4 - (y - 1) div 100 + (y - 1) div 400"

definition days_before_month :: "nat \<Rightarrow> nat \<Rightarrow> nat" where
  "days_before_month y m = sum_list (map (days_in_month y) [1..<m])"

definition toordinal :: "date \<Rightarrow> nat" where
  "toordinal d = days_before_year (year d) + days_before_month (year d) (month d) + day d"

text \<open>The instant of an aware value with offset \<open>off\<close>, in microseconds.\<close>

definition utc_micros :: "datetime \<Rightarrow> int \<Rightarrow> int" where
  "utc_micros t off =
     int ((((toordinal (date_of t) * 24 + hour t) * 60 + minute t) * 60 + second t) * 1000000
          + microsecond t) - off"

definition datetime_le :: "datetime \<Rightarrow> datetime \<Rightarrow> bool option" where
  "datetime_le a b =
     (if tzinfo a = tzinfo b then Some (base_fields a \<le> base_fields b)
      else (case (tzinfo a, tzinfo b) of
              (Some oa, Some ob) \<Rightarrow> Some (utc_micros a oa \<le> utc_micros b ob)
            | _ \<Rightarrow> None))"

section \<open>The record store (SQLite file \<open>todo.db\<close>)\<close>

text \<open>
  A table is the list of its rows in rowid order together with the AUTOINCREMENT counter
  that SQLite keeps for it.  The four tables of \<open>init_db\<close> exist or not independently:
  a database file that was only connected to has none of them.
\<close>

record task_row =
  task_id :: nat
  task_description :: string
  task_expires :: string

record note_row =
  note_id :: nat
  note_content :: string

record event_row =
  event_id :: nat
  event_name :: string
  event_time :: string

record document_row =
  doc_id :: nat
  doc_label :: string
  doc_path :: string
  doc_storage :: "string option"

record 'r table =
  rows :: "'r list"
  seq :: nat

record database =
  tasks_table :: "task_row table option"
  notes_table :: "note_row table option"
  events_table :: "event_row table option"
  documents_table :: "document_row table option"

definition empty_table :: "'r table" where
  "empty_table = \<lparr>rows = [], seq = 0\<rparr>"

definition empty_database :: database where
  "empty_database =
     \<lparr>tasks_table = None, notes_table = None, events_table = None, documents_table = None\<rparr>"

text \<open>\<open>INSERT\<close> into a table with an \<open>INTEGER PRIMARY KEY AUTOINCREMENT\<close> column: the new
  row gets the next identifier.\<close>

definition insert_row :: "(nat \<Rightarrow> 'r) \<Rightarrow> 'r table \<Rightarrow> 'r table" where
  "insert_row mk t = \<lparr>rows = rows t @ [mk (Suc (seq t))], seq = Suc (seq t)\<rparr>"

text \<open>\<open>CREATE TABLE IF NOT EXISTS\<close>.\<close>

definition create_if_not_exists :: "'r table option \<Rightarrow> 'r table option" where
  "create_if_not_exists t = (case t of None \<Rightarrow> Some empty_table | Some x \<Rightarrow> Some x)"

section \<open>Files and paths (pathlib, os, shutil)\<close>

text \<open>
  A \<open>PurePosixPath\<close> is its root and the list of its components.  The root is empty
  for a relative path, \<open>/\<close> for an absolute one, and \<open>//\<close> when the string begins with
  exactly two slashes (three or more count as one).  pathlib drops empty components and
  \<open>.\<close> when it parses a string and keeps \<open>..\<close>.
\<close>

datatype ppath = PPath (root: string) (parts: "string list")

definition is_abs :: "ppath \<Rightarrow> bool" where
  "is_abs p = (root p \<noteq> [])"

definition splitroot :: "string \<Rightarrow> string" where
  "splitroot s =
     (let n = length (takeWhile (\<lambda>c. c = CHR ''/'') s)
      in if n = 2 then ''//'' else if 0 < n then ''/'' else [])"

fun split_slash :: "string \<Rightarrow> string list" where
  "split_slash [] = [[]]"
| "split_slash (c # cs) =
     (if c = CHR ''/'' then [] # split_slash cs
      else (case split_slash cs of [] \<Rightarrow> [[c]] | x # xs \<Rightarrow> (c # x) # xs))"

definition Path :: "string \<Rightarrow> ppath" where
  "Path s = PPath (splitroot s) (filter (\<lambda>c. c \<noteq> [] \<and> c \<noteq> ''.'') (split_slash s))"

text \<open>\<open>p / s\<close>: an absolute right operand replaces the left one.\<close>

definition joinpath :: "ppath \<Rightarrow> string \<Rightarrow> ppath" where
  "joinpath p s =
     (let q = Path s in if is_abs q then q else PPath (root p) (parts p @ parts q))"

text \<open>\<open>p.name\<close>, \<open>p.parent\<close> and \<open>str(p)\<close>.\<close>

definition path_name :: "ppath \<Rightarrow> string" where
  "path_name p = (if parts p = [] then [] else last (parts p))"

definition parent :: "ppath \<Rightarrow> ppath" where
  "parent p = PPath (root p) (butlast (parts p))"

fun join_slash :: "string list \<Rightarrow> string" where
  "join_slash [] = []"
| "join_slash [x] = x"
| "join_slash (x # y # ys) = x @ ''/'' @ join_slash (y # ys)"

definition path_str :: "ppath \<Rightarrow> string" where
  "path_str p =
     (if is_abs p then root p @ join_slash (parts p)
      else if parts p = [] then ''.'' else join_slash (parts p))"

text \<open>\<open>os.path.basename\<close>: what follows the last slash.\<close>

definition basename :: "string \<Rightarrow> string" where
  "basename s = last (split_slash s)"

definition STORAGE_DIR :: ppath where
  "STORAGE_DIR = Path ''storage''"

text \<open>
  The file tree maps the location of a node, its list of names from the root directory, to
  a directory or to a regular file.  A regular file has its bytes, its mode (the nine
  permission bits \<open>rwxrwxrwx\<close> as a number, \<open>0o644 = 420\<close>) and the class by which the
  process is checked against the mode: as the owner of the file, as a member of its group,
  or as anybody else.  Directories are taken to be accessible to the process.  Symbolic
  links, hard links, special files and the set-id and sticky bits are outside the model.
\<close>

datatype who = Owner | Group | Other

datatype node = Dir | File string nat who

datatype error =
    ValueError
  | OperationalError
  | FileNotFoundError
  | FileExistsError
  | NotADirectoryError
  | IsADirectoryError
  | SameFileError
  | PermissionError
  | OverflowError

datatype outcome = Returned | Raised error

section \<open>The calendar library (ics)\<close>

text \<open>
  An \<open>Event\<close> of the ics library has a name, a begin and a \<open>uid\<close> that the constructor draws
  afresh; two events are the same element of \<open>Calendar.events\<close>, a Python set, when their
  uids are equal.  The set is kept as the list of its elements in the order they were
  added.
\<close>

record cal_event =
  cal_uid :: string
  cal_name :: string
  cal_begin :: datetime

definition events_add :: "cal_event list \<Rightarrow> cal_event \<Rightarrow> cal_event list" where
  "events_add cal e = (if cal_uid e \<in> set (map cal_uid cal) then cal else cal @ [e])"

text \<open>
  Writing the calendar serialises every event into a \<open>VEVENT\<close> component.  Its \<open>DTSTART\<close>
  line holds the begin as an instant in UTC, cut to whole seconds, in the form
  \<open>YYYYMMDDTHHMMSSZ\<close>: the library takes a begin without offset to be in UTC already and
  converts one with an offset with \<open>astimezone\<close>, which subtracts the offset and raises
  \<open>OverflowError\<close> when the result leaves the years 1 to 9999.  \<open>fromordinal\<close> is
  \<open>date.fromordinal\<close>, the date of a day number counted from 1 January of year 1.
\<close>

definition fromordinal :: "nat \<Rightarrow> date" where
  "fromordinal n =
     (let n0 = n - 1;
          n400 = n0 div 146097; r400 = n0 mod 146097;
          n100 = r400 div 36524; r100 = r400 mod 36524;
          n4 = r100 div 1461; r4 = r100 mod 1461;
          n1 = r4 div 365; r1 = r4 mod 365;
          y = n400 * 400 + 1 + n100 * 100 + n4 * 4 + n1
      in if n1 = 4 \<or> n100 = 4 then \<lparr>year = y - 1, month = 12, day = 31\<rparr>
         else (let m = (r1 + 50) div 32;
                   m' = (if r1 < days_before_month y m then m - 1 else m)
               in \<lparr>year = y, month = m', day = r1 - days_before_month y m' + 1\<rparr>))"

definition astimezone_utc :: "datetime \<Rightarrow> int \<Rightarrow> error + datetime" where
  "astimezone_utc t off =
     (let us = utc_micros t off;
          days = us div 86400000000;
          rest = nat (us mod 86400000000)
      in if 0 < days \<and> days \<le> 3652059
         then Inr \<lparr>date_of = fromordinal (nat days), hour = rest div 3600000000,
                   minute = (rest div 60000000) mod 60, second = (rest div 1000000) mod 60,
                   microsecond = rest mod 1000000, tzinfo = Some 0\<rparr>
         else Inl OverflowError)"

definition dtstart_text :: "datetime \<Rightarrow> error + string" where
  "dtstart_text t =
     (case (case tzinfo t of None \<Rightarrow> Inr t | Some off \<Rightarrow> astimezone_utc t off) of
        Inl e \<Rightarrow> Inl e
      | Inr u \<Rightarrow>
          Inr (zpad 4 (year (date_of u)) @ zpad 2 (month (date_of u)) @ zpad 2 (day (date_of u)) @
               ''T'' @ zpad 2 (hour u) @ zpad 2 (minute u) @ zpad 2 (second u) @ ''Z''))"

text \<open>
  A \<open>VEVENT\<close> component of the file is kept as the values of its \<open>UID\<close>, \<open>SUMMARY\<close> and
  \<open>DTSTART\<close> lines; the \<open>SUMMARY\<close> line is written only for a name that is not empty.
  The other lines of the file and the escaping of the values are outside the model.  The
  file is either empty (zero bytes, as \<open>open\<close> for writing leaves it) or a calendar with
  its components.
\<close>

record vevent =
  ev_uid :: string
  ev_summary :: "string option"
  ev_dtstart :: string

datatype ics_file = Empty_file | Calendar_file "vevent list"

definition summary_of :: "string \<Rightarrow> string option" where
  "summary_of name = (if name = [] then None else Some name)"

definition serialize_event :: "cal_event \<Rightarrow> error + vevent" where
  "serialize_event e =
     (case dtstart_text (cal_begin e) of
        Inl err \<Rightarrow> Inl err
      | Inr x \<Rightarrow> Inr \<lparr>ev_uid = cal_uid e, ev_summary = summary_of (cal_name e), ev_dtstart = x\<rparr>)"

fun serialize :: "cal_event list \<Rightarrow> error + vevent list" where
  "serialize [] = Inr []"
| "serialize (e # es) =
     (case serialize_event e of
        Inl err \<Rightarrow> Inl err
      | Inr v \<Rightarrow> (case serialize es of Inl err \<Rightarrow> Inl err | Inr vs \<Rightarrow> Inr (v # vs)))"

section \<open>The world the program runs in\<close>

text \<open>
  \<open>clock_today\<close> is the local date of the system clock, \<open>uuid4\<close> the stream of identifiers
  the uid generator draws from and \<open>uuid_next\<close> its position.  \<open>superuser\<close> tells whether
  the process passes every permission check, and \<open>create_mode\<close> is the mode it gives to
  the files it creates.  \<open>calendar_writable\<close> tells whether \<open>calendar.ics\<close> can be opened
  for writing.  \<open>regenerations\<close> and \<open>calendar_writes\<close> count the calls of
  \<open>generate_calendar\<close> and the times the calendar file was opened for writing, which
  empties it; they are not part of the program's state and only record what happened.
  \<open>todo.db\<close> and \<open>calendar.ics\<close> are kept apart from the file tree, which holds the
  content root and the files given to \<open>add-doc\<close>.  \<open>stdout\<close> is what the process has
  written, line by line; the help text of the program, the help text of a command and the
  usage error of argparse (which goes to the error stream) are recorded there as single
  items.
\<close>

datatype out_item = Line string | Help_text | Command_help string | Usage_error

record world =
  clock_today :: date
  db_file :: "database option"
  cwd :: "string list"
  files :: "string list \<Rightarrow> node option"
  superuser :: bool
  create_mode :: nat
  calendar_ics :: "ics_file option"
  calendar_writable :: bool
  uuid4 :: "nat \<Rightarrow> string"
  uuid_next :: nat
  stdout :: "out_item list"
  regenerations :: nat
  calendar_writes :: nat

definition print :: "string \<Rightarrow> world \<Rightarrow> world" where
  "print s w = w\<lparr>stdout := stdout w @ [Line s]\<rparr>"

subsection \<open>Operating-system calls on the file tree\<close>

text \<open>
  Name lookup: starting from a directory, each component is looked up in the directory
  reached so far, which must exist and be a directory; \<open>..\<close> leads to its parent.  The
  result is the location the path names, whether or not a node exists there.
\<close>

fun walk :: "(string list \<Rightarrow> node option) \<Rightarrow> string list \<Rightarrow> string list \<Rightarrow> error + string list" where
  "walk fs cur [] = Inr cur"
| "walk fs cur (c # cs) =
     (case fs cur of
        None \<Rightarrow> Inl FileNotFoundError
      | Some (File b m k) \<Rightarrow> Inl NotADirectoryError
      | Some Dir \<Rightarrow> walk fs (if c = ''..'' then butlast cur else cur @ [c]) cs)"

definition locate :: "world \<Rightarrow> ppath \<Rightarrow> error + string list" where
  "locate w p = walk (files w) (if is_abs p then [] else cwd w) (parts p)"

definition os_mkdir :: "ppath \<Rightarrow> world \<Rightarrow> error + world" where
  "os_mkdir p w =
     (case locate w p of
        Inl e \<Rightarrow> Inl e
      | Inr t \<Rightarrow>
          (case files w t of
             Some n \<Rightarrow> Inl FileExistsError
           | None \<Rightarrow> Inr (w\<lparr>files := (files w)(t \<mapsto> Dir)\<rparr>)))"

definition is_dir :: "ppath \<Rightarrow> world \<Rightarrow> bool" where
  "is_dir p w = (case locate w p of Inl e \<Rightarrow> False | Inr t \<Rightarrow> files w t = Some Dir)"

text \<open>\<open>p.mkdir(parents=False, exist_ok=True)\<close>.\<close>

definition mkdir_exist_ok :: "ppath \<Rightarrow> world \<Rightarrow> outcome \<times> world" where
  "mkdir_exist_ok p w =
     (case os_mkdir p w of
        Inr w' \<Rightarrow> (Returned, w')
      | Inl e \<Rightarrow>
          if e = FileNotFoundError then (Raised e, w)
          else if is_dir p w then (Returned, w) else (Raised e, w))"

text \<open>\<open>p.mkdir(parents=True, exist_ok=True)\<close>: when a parent is missing, the parents are
  made first and the directory itself is tried once more.\<close>

function path_mkdir :: "ppath \<Rightarrow> world \<Rightarrow> outcome \<times> world" where
  "path_mkdir p w =
     (case os_mkdir p w of
        Inr w' \<Rightarrow> (Returned, w')
      | Inl e \<Rightarrow>
          if e = FileNotFoundError then
            (if parent p = p then (Raised e, w)
             else (case path_mkdir (parent p) w of
                     (Raised e', w1) \<Rightarrow> (Raised e', w1)
                   | (Returned, w1) \<Rightarrow> mkdir_exist_ok p w1))
          else if is_dir p w then (Returned, w) else (Raised e, w))"
  by pat_completeness auto
termination
proof (relation "measure (\<lambda>(p, w). length (parts p))")
  fix p :: ppath and w :: world and e :: error
  assume "parent p \<noteq> p"
  then have "parts p \<noteq> []"
    by (cases p) (auto simp: parent_def)
  then show "((parent p, w), (p, w)) \<in> measure (\<lambda>(p, w). length (parts p))"
    by (simp add: parent_def)
qed simp

text \<open>
  Permission checks.  The superuser passes every check.  Anybody else needs the read bit
  (position 2) or the write bit (position 1) in the three bits of the class the process
  falls in, and may change the mode of a file only as its owner.
\<close>

definition class_shift :: "who \<Rightarrow> nat" where
  "class_shift k = (case k of Owner \<Rightarrow> 6 | Group \<Rightarrow> 3 | Other \<Rightarrow> 0)"

definition mode_allows :: "nat \<Rightarrow> who \<Rightarrow> nat \<Rightarrow> bool" where
  "mode_allows m k b = ((m div 2 ^ (class_shift k + b)) mod 2 = 1)"

definition may_read :: "world \<Rightarrow> nat \<Rightarrow> who \<Rightarrow> bool" where
  "may_read w m k = (superuser w \<or> mode_allows m k 2)"

definition may_write :: "world \<Rightarrow> nat \<Rightarrow> who \<Rightarrow> bool" where
  "may_write w m k = (superuser w \<or> mode_allows m k 1)"

definition may_chmod :: "world \<Rightarrow> who \<Rightarrow> bool" where
  "may_chmod w k = (superuser w \<or> k = Owner)"

text \<open>Opening a file for reading and reading it all; the result is the content together
  with the mode that \<open>stat\<close> reports for the file.\<close>

definition read_file :: "ppath \<Rightarrow> world \<Rightarrow> error + string \<times> nat" where
  "read_file p w =
     (case locate w p of
        Inl e \<Rightarrow> Inl e
      | Inr t \<Rightarrow>
          (case files w t of
             None \<Rightarrow> Inl FileNotFoundError
           | Some Dir \<Rightarrow> Inl IsADirectoryError
           | Some (File b m k) \<Rightarrow> if may_read w m k then Inr (b, m) else Inl PermissionError))"

text \<open>Opening a file for writing and writing the bytes.  An existing file must be
  writable and keeps its mode; a file that is not there is created with the mode the
  process gives to new files (\<open>0o666\<close> without the bits of its umask) and belongs to the
  process.\<close>

definition write_file :: "ppath \<Rightarrow> string \<Rightarrow> world \<Rightarrow> error + world" where
  "write_file p b w =
     (case locate w p of
        Inl e \<Rightarrow> Inl e
      | Inr t \<Rightarrow>
          (case files w t of
             None \<Rightarrow> Inr (w\<lparr>files := (files w)(t \<mapsto> File b (create_mode w) Owner)\<rparr>)
           | Some Dir \<Rightarrow> Inl IsADirectoryError
           | Some (File c m k) \<Rightarrow>
               if may_write w m k then Inr (w\<lparr>files := (files w)(t \<mapsto> File b m k)\<rparr>)
               else Inl PermissionError))"

text \<open>\<open>os.chmod\<close> on a regular file.\<close>

definition os_chmod :: "ppath \<Rightarrow> nat \<Rightarrow> world \<Rightarrow> error + world" where
  "os_chmod p m w =
     (case locate w p of
        Inl e \<Rightarrow> Inl e
      | Inr t \<Rightarrow>
          (case files w t of
             None \<Rightarrow> Inl FileNotFoundError
           | Some Dir \<Rightarrow> Inr w
           | Some (File c m0 k) \<Rightarrow>
               if may_chmod w k then Inr (w\<lparr>files := (files w)(t \<mapsto> File c m k)\<rparr>)
               else Inl PermissionError))"

definition samefile :: "ppath \<Rightarrow> ppath \<Rightarrow> world \<Rightarrow> bool" where
  "samefile a b w =
     (case locate w a of
        Inl e \<Rightarrow> False
      | Inr x \<Rightarrow> (case locate w b of Inl e \<Rightarrow> False | Inr y \<Rightarrow> x = y \<and> files w x \<noteq> None))"

text \<open>
  \<open>shutil.copy(src, dst)\<close>: a destination that is a directory stands for the file of the
  source's base name inside it; copying a file onto itself is refused; then the source is
  opened and read, the destination is opened and written, and last the mode of the source
  is given to the destination (\<open>copymode\<close>).  A failure of the last step leaves the bytes
  written.
\<close>

definition copy_target :: "ppath \<Rightarrow> ppath \<Rightarrow> world \<Rightarrow> ppath" where
  "copy_target src dst w =
     (if is_dir dst w then joinpath dst (basename (path_str src)) else dst)"

definition shutil_copy :: "ppath \<Rightarrow> ppath \<Rightarrow> world \<Rightarrow> outcome \<times> world" where
  "shutil_copy src dst w =
     (let dst' = copy_target src dst w in
      if samefile src dst' w then (Raised SameFileError, w)
      else (case read_file src w of
              Inl e \<Rightarrow> (Raised e, w)
            | Inr (b, m) \<Rightarrow>
                (case write_file dst' b w of
                   Inl e \<Rightarrow> (Raised e, w)
                 | Inr w1 \<Rightarrow>
                     (case os_chmod dst' m w1 of
                        Inl e \<Rightarrow> (Raised e, w1)
                      | Inr w2 \<Rightarrow> (Returned, w2)))))"

section \<open>The operations of the program\<close>

text \<open>
  Every operation takes the world and returns how it ended, normally or with an exception,
  and the world it leaves.  \<open>connect\<close> is \<open>sqlite3.connect(DB_PATH)\<close>: it opens the database
  and creates an empty file when there is none.  Leaving the \<open>with\<close> block commits; an
  exception inside it rolls the statement back.  \<open>ORDER BY\<close> is a sort by the key that
  keeps rows with equal keys in rowid order (SQLite leaves their order open).
\<close>

definition connect :: "world \<Rightarrow> database" where
  "connect w = (case db_file w of None \<Rightarrow> empty_database | Some d \<Rightarrow> d)"

definition init_db :: "world \<Rightarrow> world" where
  "init_db w =
     (let d = connect w
      in w\<lparr>db_file := Some (d\<lparr>tasks_table := create_if_not_exists (tasks_table d),
                               notes_table := create_if_not_exists (notes_table d),
                               events_table := create_if_not_exists (events_table d),
                               documents_table := create_if_not_exists (documents_table d)\<rparr>)\<rparr>)"

definition add_task :: "string \<Rightarrow> string \<Rightarrow> world \<Rightarrow> outcome \<times> world" where
  "add_task description expires w =
     (case fromisoformat expires of
        None \<Rightarrow> (Raised ValueError, w)
      | Some dt \<Rightarrow>
          (let d = connect w in
           case tasks_table d of
             None \<Rightarrow> (Raised OperationalError, w\<lparr>db_file := Some d\<rparr>)
           | Some t \<Rightarrow>
               (Returned,
                w\<lparr>db_file := Some (d\<lparr>tasks_table := Some (insert_row
                     (\<lambda>i. \<lparr>task_id = i, task_description = description,
                            task_expires = date_isoformat (date_of dt)\<rparr>) t)\<rparr>)\<rparr>)))"

text \<open>The line \<open>list_tasks\<close> prints for a row, given the status text.\<close>

definition task_line :: "task_row \<Rightarrow> string \<Rightarrow> string" where
  "task_line r status =
     str_nat (task_id r) @ '': '' @ task_description r @ '' (due '' @ task_expires r @ '') '' @
     status"

fun print_tasks :: "task_row list \<Rightarrow> world \<Rightarrow> outcome \<times> world" where
  "print_tasks [] w = (Returned, w)"
| "print_tasks (r # rs) w =
     (case date_fromisoformat (task_expires r) of
        None \<Rightarrow> (Raised ValueError, w)
      | Some exp_date \<Rightarrow>
          print_tasks rs
            (print (task_line r (if date_less exp_date (clock_today w) then ''EXPIRED'' else []))
               w))"

definition list_tasks :: "world \<Rightarrow> outcome \<times> world" where
  "list_tasks w =
     (let d = connect w; w0 = w\<lparr>db_file := Some d\<rparr> in
      case tasks_table d of
        None \<Rightarrow> (Raised OperationalError, w0)
      | Some t \<Rightarrow> print_tasks (sort_key task_expires (rows t)) w0)"

definition add_note :: "string \<Rightarrow> world \<Rightarrow> outcome \<times> world" where
  "add_note content w =
     (let d = connect w in
      case notes_table d of
        None \<Rightarrow> (Raised OperationalError, w\<lparr>db_file := Some d\<rparr>)
      | Some t \<Rightarrow>
          (Returned,
           w\<lparr>db_file := Some (d\<lparr>notes_table := Some (insert_row
                (\<lambda>i. \<lparr>note_id = i, note_content = content\<rparr>) t)\<rparr>)\<rparr>))"

definition note_line :: "note_row \<Rightarrow> string" where
  "note_line r = str_nat (note_id r) @ '': '' @ note_content r"

definition list_notes :: "world \<Rightarrow> outcome \<times> world" where
  "list_notes w =
     (let d = connect w; w0 = w\<lparr>db_file := Some d\<rparr> in
      case notes_table d of
        None \<Rightarrow> (Raised OperationalError, w0)
      | Some t \<Rightarrow> (Returned, fold (\<lambda>r. print (note_line r)) (rows t) w0))"

text \<open>\<open>generate_calendar\<close>: one \<open>Event\<close> per row of the events table, each with a uid drawn
  from the generator, added to the calendar's set.  Then \<open>calendar.ics\<close> is opened for
  writing, which creates or empties it, and \<open>writelines\<close> asks the calendar for its lines:
  the whole calendar is serialised before the first line is written, so a failure there
  leaves the file empty.\<close>

fun collect_events :: "event_row list \<Rightarrow> cal_event list \<Rightarrow> world \<Rightarrow> (error + cal_event list) \<times> world" where
  "collect_events [] cal w = (Inr cal, w)"
| "collect_events (r # rs) cal w =
     (let uid = uuid4 w (uuid_next w);
          w1 = w\<lparr>uuid_next := Suc (uuid_next w)\<rparr>
      in case fromisoformat (event_time r) of
           None \<Rightarrow> (Inl ValueError, w1)
         | Some dt \<Rightarrow>
             collect_events rs
               (events_add cal \<lparr>cal_uid = uid, cal_name = event_name r, cal_begin = dt\<rparr>) w1)"

definition generate_calendar :: "world \<Rightarrow> outcome \<times> world" where
  "generate_calendar w =
     (let w0 = w\<lparr>regenerations := Suc (regenerations w)\<rparr>;
          d = connect w0;
          w1 = w0\<lparr>db_file := Some d\<rparr>
      in case events_table d of
           None \<Rightarrow> (Raised OperationalError, w1)
         | Some t \<Rightarrow>
             (case collect_events (rows t) [] w1 of
                (Inl e, w2) \<Rightarrow> (Raised e, w2)
              | (Inr cal, w2) \<Rightarrow>
                  if calendar_writable w2
                  then (let w3 = w2\<lparr>calendar_ics := Some Empty_file,
                                      calendar_writes := Suc (calendar_writes w2)\<rparr>
                        in case serialize cal of
                             Inl e \<Rightarrow> (Raised e, w3)
                           | Inr vs \<Rightarrow> (Returned, w3\<lparr>calendar_ics := Some (Calendar_file vs)\<rparr>))
                  else (Raised PermissionError, w2)))"

definition add_event :: "string \<Rightarrow> string \<Rightarrow> world \<Rightarrow> outcome \<times> world" where
  "add_event name time w =
     (case fromisoformat time of
        None \<Rightarrow> (Raised ValueError, w)
      | Some dt \<Rightarrow>
          (let d = connect w in
           case events_table d of
             None \<Rightarrow> (Raised OperationalError, w\<lparr>db_file := Some d\<rparr>)
           | Some t \<Rightarrow>
               generate_calendar
                 (w\<lparr>db_file := Some (d\<lparr>events_table := Some (insert_row
                      (\<lambda>i. \<lparr>event_id = i, event_name = name, event_time = isoformat dt\<rparr>)
                      t)\<rparr>)\<rparr>)))"

definition event_line :: "event_row \<Rightarrow> string" where
  "event_line r = str_nat (event_id r) @ '': '' @ event_name r @ '' at '' @ event_time r"

definition list_events :: "world \<Rightarrow> outcome \<times> world" where
  "list_events w =
     (let d = connect w; w0 = w\<lparr>db_file := Some d\<rparr> in
      case events_table d of
        None \<Rightarrow> (Raised OperationalError, w0)
      | Some t \<Rightarrow>
          (Returned, fold (\<lambda>r. print (event_line r)) (sort_key event_time (rows t)) w0))"

definition add_storage :: "string \<Rightarrow> world \<Rightarrow> outcome \<times> world" where
  "add_storage name w =
     (let path = joinpath STORAGE_DIR name in
      case path_mkdir path w of
        (Raised e, w1) \<Rightarrow> (Raised e, w1)
      | (Returned, w1) \<Rightarrow> (Returned, print (''Created storage: '' @ path_str path) w1))"

text \<open>\<open>storage or ''\<close>: an absent and an empty storage name both stand for the root area.\<close>

definition storage_or_empty :: "string option \<Rightarrow> string" where
  "storage_or_empty storage = (case storage of None \<Rightarrow> [] | Some s \<Rightarrow> s)"

definition add_document :: "string \<Rightarrow> string \<Rightarrow> string option \<Rightarrow> world \<Rightarrow> outcome \<times> world" where
  "add_document label file_path storage w =
     (let storage_path = joinpath STORAGE_DIR (storage_or_empty storage) in
      case path_mkdir storage_path w of
        (Raised e, w1) \<Rightarrow> (Raised e, w1)
      | (Returned, w1) \<Rightarrow>
          (let src = Path file_path;
               dest = joinpath storage_path (path_name src)
           in case shutil_copy src dest w1 of
                (Raised e, w2) \<Rightarrow> (Raised e, w2)
              | (Returned, w2) \<Rightarrow>
                  (let d = connect w2 in
                   case documents_table d of
                     None \<Rightarrow> (Raised OperationalError, w2\<lparr>db_file := Some d\<rparr>)
                   | Some t \<Rightarrow>
                       (Returned,
                        print (''Stored document at '' @ path_str dest)
                          (w2\<lparr>db_file := Some (d\<lparr>documents_table := Some (insert_row
                               (\<lambda>i. \<lparr>doc_id = i, doc_label = label, doc_path = path_str dest,
                                      doc_storage = storage\<rparr>) t)\<rparr>)\<rparr>)))))"

definition document_line :: "document_row \<Rightarrow> string" where
  "document_line r =
     str_nat (doc_id r) @ '': '' @ doc_label r @ '' -> '' @ doc_path r @ '' (storage: '' @
     (case doc_storage r of None \<Rightarrow> ''root'' | Some s \<Rightarrow> if s = [] then ''root'' else s) @ '')''"

definition list_documents :: "world \<Rightarrow> outcome \<times> world" where
  "list_documents w =
     (let d = connect w; w0 = w\<lparr>db_file := Some d\<rparr> in
      case documents_table d of
        None \<Rightarrow> (Raised OperationalError, w0)
      | Some t \<Rightarrow> (Returned, fold (\<lambda>r. print (document_line r)) (rows t) w0))"

section \<open>The command line and \<open>main\<close>\<close>

text \<open>
  The command line is taken as argparse classifies it: the command word (the first
  positional argument, if any), the positional arguments after it, and the value of
  \<open>--storage\<close> if it was given.  A positional argument is a token that argparse does not
  take for an option.  How argparse gets there from the strings of the command line,
  with the options it knows and the \<open>-h\<close> option it adds by itself, is \<open>scan_args\<close> below;
  \<open>parse_args\<close> is the rest of its work, the check of the command word and of the number
  of arguments.  It returns the parsed arguments, or the status with which argparse ends
  the process after a usage error.
\<close>

datatype argv = Argv (argv_command: "string option") (argv_operands: "string list")
  (argv_storage: "string option")

datatype args =
    No_command
  | Add_task string string
  | List_tasks
  | Add_note string
  | List_notes
  | Add_event string string
  | List_events
  | Add_storage string
  | Add_doc string string "string option"
  | List_docs

fun parse_args :: "argv \<Rightarrow> nat + args" where
  "parse_args (Argv None ops st) = (if ops = [] \<and> st = None then Inr No_command else Inl 2)"
| "parse_args (Argv (Some c) ops st) =
     (if c = ''add-doc'' then (case ops of [l, f] \<Rightarrow> Inr (Add_doc l f st) | _ \<Rightarrow> Inl 2)
      else if st \<noteq> None then Inl 2
      else if c = ''add-task'' then (case ops of [d, e] \<Rightarrow> Inr (Add_task d e) | _ \<Rightarrow> Inl 2)
      else if c = ''list-tasks'' then (case ops of [] \<Rightarrow> Inr List_tasks | _ \<Rightarrow> Inl 2)
      else if c = ''add-note'' then (case ops of [n] \<Rightarrow> Inr (Add_note n) | _ \<Rightarrow> Inl 2)
      else if c = ''list-notes'' then (case ops of [] \<Rightarrow> Inr List_notes | _ \<Rightarrow> Inl 2)
      else if c = ''add-event'' then (case ops of [n, t] \<Rightarrow> Inr (Add_event n t) | _ \<Rightarrow> Inl 2)
      else if c = ''list-events'' then (case ops of [] \<Rightarrow> Inr List_events | _ \<Rightarrow> Inl 2)
      else if c = ''add-storage'' then (case ops of [n] \<Rightarrow> Inr (Add_storage n) | _ \<Rightarrow> Inl 2)
      else if c = ''list-docs'' then (case ops of [] \<Rightarrow> Inr List_docs | _ \<Rightarrow> Inl 2)
      else Inl 2)"

text \<open>The \<open>if\<close>/\<open>elif\<close> chain of \<open>main\<close>; its last branch prints the help text.\<close>

fun dispatch :: "args \<Rightarrow> world \<Rightarrow> outcome \<times> world" where
  "dispatch (Add_task d e) w = add_task d e w"
| "dispatch List_tasks w = list_tasks w"
| "dispatch (Add_note n) w = add_note n w"
| "dispatch List_notes w = list_notes w"
| "dispatch (Add_event n t) w = add_event n t w"
| "dispatch List_events w = list_events w"
| "dispatch (Add_storage n) w = add_storage n w"
| "dispatch (Add_doc l f st) w = add_document l f st w"
| "dispatch List_docs w = list_documents w"
| "dispatch No_command w = (Returned, w\<lparr>stdout := stdout w @ [Help_text]\<rparr>)"

text \<open>\<open>main\<close> returns the exit status of the process: 0 after a normal return, 1 after an
  exception that nothing caught, and the status argparse chose after a usage error.\<close>

definition main :: "argv \<Rightarrow> world \<Rightarrow> nat \<times> world" where
  "main av w =
     (let w0 = init_db w in
      case parse_args av of
        Inl status \<Rightarrow> (status, w0\<lparr>stdout := stdout w0 @ [Usage_error]\<rparr>)
      | Inr a \<Rightarrow>
          (case dispatch a w0 of
             (Returned, w1) \<Rightarrow> (0, w1)
           | (Raised e, w1) \<Rightarrow> (1, w1)))"

text \<open>The command words \<open>build_parser\<close> registers.\<close>

definition commands :: "string list" where
  "commands = [''add-task'', ''list-tasks'', ''add-note'', ''list-notes'', ''add-event'',
               ''list-events'', ''add-storage'', ''add-doc'', ''list-docs'']"

subsection \<open>The strings of the command line\<close>

text \<open>
  \<open>scan_args\<close> follows argparse (as of Python 3.11) over the argument strings of the
  process, from left to right.  A string is an option when it begins with \<open>-\<close>, has more
  than one character and is not a negative number or a text with a space; \<open>--\<close> ends the
  options.  Long options may be abbreviated and may carry their value after \<open>=\<close>.
\<close>

definition negative_number :: "string \<Rightarrow> bool" where
  "negative_number s =
     (let t = (if s \<noteq> [] \<and> last s = CHR 0x0A then butlast s else s);
          ds = takeWhile is_digit (tl t);
          rest = dropWhile is_digit (tl t)
      in t \<noteq> [] \<and> hd t = CHR ''-'' \<and>
         (if rest = [] then ds \<noteq> []
          else hd rest = CHR ''.'' \<and> tl rest \<noteq> [] \<and> list_all is_digit (tl rest)))"

fun split_eq :: "string \<Rightarrow> string \<times> string option" where
  "split_eq [] = ([], None)"
| "split_eq (c # cs) =
     (if c = CHR ''='' then ([], Some cs)
      else (case split_eq cs of (a, r) \<Rightarrow> (c # a, r)))"

definition starts :: "string \<Rightarrow> string \<Rightarrow> bool" where
  "starts s p = (take (length p) s = p)"

text \<open>
  What argparse takes a string for: an argument, the help option (written with one dash
  or two, and with what is attached to it: nothing, or a text, after \<open>=\<close> or not), the
  \<open>--storage\<close> option of \<open>add-doc\<close> with the value attached to it, an option the parser
  does not know, or an abbreviation that fits two options.
\<close>

datatype token =
    Arg
  | Help_opt bool "(bool \<times> string) option"
  | Storage_opt "string option"
  | Unknown_opt
  | Ambiguous

definition unlisted :: "string \<Rightarrow> token" where
  "unlisted s = (if negative_number s \<or> CHR '' '' \<in> set s then Arg else Unknown_opt)"

definition classify :: "bool \<Rightarrow> string \<Rightarrow> token" where
  "classify has_storage s =
     (if s = [] \<or> hd s \<noteq> CHR ''-'' then Arg
      else if s = ''-h'' then Help_opt True None
      else if s = ''--help'' then Help_opt False None
      else if has_storage \<and> s = ''--storage'' then Storage_opt None
      else if length s = 1 then Arg
      else (case split_eq s of (opt, e) \<Rightarrow>
        if e \<noteq> None \<and> opt = ''-h'' then Help_opt True (map_option (Pair True) e)
        else if e \<noteq> None \<and> opt = ''--help'' then Help_opt False (map_option (Pair True) e)
        else if e \<noteq> None \<and> has_storage \<and> opt = ''--storage'' then Storage_opt e
        else if hd (tl s) = CHR ''-'' then
          (if starts ''--help'' opt \<and> has_storage \<and> starts ''--storage'' opt then Ambiguous
           else if starts ''--help'' opt then Help_opt False (map_option (Pair True) e)
           else if has_storage \<and> starts ''--storage'' opt then Storage_opt e
           else unlisted s)
        else if take 2 s = ''-h'' then Help_opt True (Some (False, drop 2 s))
        else unlisted s))"

text \<open>Whether a help option prints the help (and ends the process with status 0) or is a
  usage error: \<open>-h\<close> may be followed by further \<open>h\<close> and by letters that are no options,
  but not by \<open>=\<close> or \<open>-\<close>, and \<open>--help\<close> takes no value.\<close>

definition takes_help :: "bool \<Rightarrow> (bool \<times> string) option \<Rightarrow> bool" where
  "takes_help single ex =
     (case ex of
        None \<Rightarrow> True
      | Some (eq, e) \<Rightarrow>
          single \<and> \<not> eq \<and> e \<noteq> [] \<and>
          (let r = dropWhile (\<lambda>c. c = CHR ''h'') e
           in r = [] \<or> (hd r \<noteq> CHR ''='' \<and> hd r \<noteq> CHR ''-'')))"

text \<open>
  The value of a positional argument is the string given for it.  In one case argparse
  leaves the empty list instead: when the string is \<open>--\<close> and the \<open>--\<close> that ended the
  options went with the argument before it.
\<close>

datatype operand = Word string | Empty_list

fun fill :: "nat \<Rightarrow> operand list \<Rightarrow> string list \<Rightarrow> operand list \<times> bool" where
  "fill k vals [] = (vals, False)"
| "fill k vals (x # xs) =
     (if length vals < k then fill k (vals @ [if x = ''--'' then Empty_list else Word x]) xs
      else (vals, True))"

definition after_separator :: "bool \<Rightarrow> nat \<Rightarrow> operand list \<Rightarrow> string list \<Rightarrow> operand list \<times> bool" where
  "after_separator prev_arg k vals xs =
     (if prev_arg then fill k vals xs
      else (case xs of
              [] \<Rightarrow> (vals, True)
            | x # xs' \<Rightarrow> if length vals < k then fill k (vals @ [Word x]) xs' else (vals, True)))"

text \<open>
  The pass of a command's parser over the strings after the command word.  \<open>k\<close> is the
  number of its positional arguments, \<open>vals\<close> the values found so far, \<open>extras\<close> whether a
  string was left over, and \<open>prev_arg\<close> whether the string before was taken as a value.
  A help option ends the pass at once, and so does a \<open>--storage\<close> without a value; strings
  left over and values missing are reported at the end.
\<close>

datatype sub_result = Ended "operand list" "string option" bool | Help_here | Usage_here

fun sub_scan :: "bool \<Rightarrow> nat \<Rightarrow> bool \<Rightarrow> operand list \<Rightarrow> string option \<Rightarrow> bool \<Rightarrow> string list \<Rightarrow> sub_result" where
  "sub_scan has_storage k prev_arg vals storage extras [] = Ended vals storage extras"
| "sub_scan has_storage k prev_arg vals storage extras (s # rest) =
     (if s = ''--'' then
        (case after_separator prev_arg k vals rest of
           (vals', left) \<Rightarrow> Ended vals' storage (extras \<or> left))
      else (case classify has_storage s of
        Arg \<Rightarrow>
          if length vals < k
          then sub_scan has_storage k True (vals @ [Word s]) storage extras rest
          else sub_scan has_storage k False vals storage True rest
      | Help_opt single ex \<Rightarrow> if takes_help single ex then Help_here else Usage_here
      | Unknown_opt \<Rightarrow> sub_scan has_storage k False vals storage True rest
      | Ambiguous \<Rightarrow> Usage_here
      | Storage_opt (Some v) \<Rightarrow> sub_scan has_storage k False vals (Some v) extras rest
      | Storage_opt None \<Rightarrow>
          (case rest of
             [] \<Rightarrow> Usage_here
           | v # rest' \<Rightarrow>
               if v \<noteq> ''--'' \<and> classify has_storage v = Arg
               then sub_scan has_storage k False vals (Some v) extras rest'
               else Usage_here)))"

definition arity :: "string \<Rightarrow> nat" where
  "arity c =
     (if c = ''add-task'' \<or> c = ''add-event'' \<or> c = ''add-doc'' then 2
      else if c = ''add-note'' \<or> c = ''add-storage'' then 1 else 0)"

text \<open>
  The result for the whole command line: the help of the program or of a command was
  asked for, the usage is wrong, or the command word (if any), the values of its
  arguments and the value of \<open>--storage\<close>.  An abbreviation that fits two options is
  found before anything else in the strings of a command.  Options before the command
  word are those of the program: the help option, or unknown.
\<close>

datatype scanned =
    Exit_help "string option"
  | Exit_usage
  | Scanned "string option" "operand list" "string option"

definition sub_parse :: "bool \<Rightarrow> string \<Rightarrow> string list \<Rightarrow> scanned" where
  "sub_parse extras0 c toks =
     (if list_ex (\<lambda>t. classify (c = ''add-doc'') t = Ambiguous)
           (takeWhile (\<lambda>t. t \<noteq> ''--'') toks)
      then Exit_usage
      else (case sub_scan (c = ''add-doc'') (arity c) False [] None False toks of
              Help_here \<Rightarrow> Exit_help (Some c)
            | Usage_here \<Rightarrow> Exit_usage
            | Ended vals storage extras \<Rightarrow>
                if length vals < arity c \<or> extras \<or> extras0 then Exit_usage
                else Scanned (Some c) vals storage))"

fun top_scan :: "bool \<Rightarrow> string list \<Rightarrow> scanned" where
  "top_scan extras [] = (if extras then Exit_usage else Scanned None [] None)"
| "top_scan extras (s # rest) =
     (if s = ''--'' then Exit_usage
      else (case classify False s of
        Arg \<Rightarrow> if s \<in> set commands then sub_parse extras s rest else Exit_usage
      | Help_opt single ex \<Rightarrow> if takes_help single ex then Exit_help None else Exit_usage
      | Unknown_opt \<Rightarrow> top_scan True rest
      | _ \<Rightarrow> Exit_usage))"

definition scan_args :: "string list \<Rightarrow> scanned" where
  "scan_args ss = top_scan False ss"

text \<open>
  \<open>main_argv\<close> is \<open>main\<close> with the argument strings of the process.  A command line that
  gives a value for every argument goes to \<open>main\<close> above.  When an argument was left as
  the empty list, the command is called with it and raises \<open>TypeError\<close> where it first
  uses it as a string: \<open>add_task\<close> and \<open>add_event\<close> at once, \<open>add_document\<close> after it has
  made the directory.
\<close>

fun words :: "operand list \<Rightarrow> string list option" where
  "words [] = Some []"
| "words (Word s # ops) = map_option ((#) s) (words ops)"
| "words (Empty_list # ops) = None"

definition main_argv :: "string list \<Rightarrow> world \<Rightarrow> nat \<times> world" where
  "main_argv ss w =
     (let w0 = init_db w in
      case scan_args ss of
        Exit_help c \<Rightarrow>
          (0, w0\<lparr>stdout := stdout w0 @ [case c of None \<Rightarrow> Help_text | Some x \<Rightarrow> Command_help x]\<rparr>)
      | Exit_usage \<Rightarrow> (2, w0\<lparr>stdout := stdout w0 @ [Usage_error]\<rparr>)
      | Scanned c ops st \<Rightarrow>
          (case words ops of
             Some ws \<Rightarrow> main (Argv c ws st) w
           | None \<Rightarrow>
               (1, if c = Some ''add-doc''
                   then snd (path_mkdir (joinpath STORAGE_DIR (storage_or_empty st)) w0)
                   else w0)))"

text \<open>A world to run examples in: an empty working directory \<open>/home\<close>, a file
  \<open>/tmp/inv.pdf\<close>, no database and no calendar file yet.\<close>

definition example_world :: world where
  "example_world =
     \<lparr>clock_today = \<lparr>year = 2024, month = 6, day = 15\<rparr>,
      db_file = None,
      cwd = [''home''],
      files = [[] \<mapsto> Dir, [''home''] \<mapsto> Dir, [''tmp''] \<mapsto> Dir,
               [''tmp'', ''inv.pdf''] \<mapsto> File ''%PDF-1.4'' 420 Owner],
      superuser = False,
      create_mode = 420,
      calendar_ics = None,
      calendar_writable = True,
      uuid4 = str_nat,
      uuid_next = 0,
      stdout = [],
      regenerations = 0,
      calendar_writes = 0\<rparr>"

text \<open>The rows of each table as a list, empty when the table or the database is missing.\<close>

definition task_rows :: "world \<Rightarrow> task_row list" where
  "task_rows w = (case tasks_table (connect w) of None \<Rightarrow> [] | Some t \<Rightarrow> rows t)"

definition note_rows :: "world \<Rightarrow> note_row list" where
  "note_rows w = (case notes_table (connect w) of None \<Rightarrow> [] | Some t \<Rightarrow> rows t)"

definition event_rows :: "world \<Rightarrow> event_row list" where
  "event_rows w = (case events_table (connect w) of None \<Rightarrow> [] | Some t \<Rightarrow> rows t)"

definition document_rows :: "world \<Rightarrow> document_row list" where
  "document_rows w = (case documents_table (connect w) of None \<Rightarrow> [] | Some t \<Rightarrow> rows t)"

text \<open>A store with three tasks, due in the past, in the far future and today.\<close>

definition example_tasks :: "task_row list" where
  "example_tasks =
     [\<lparr>task_id = 1, task_description = ''Pay rent'', task_expires = ''2020-01-01''\<rparr>,
      \<lparr>task_id = 2, task_description = ''Pay rent'', task_expires = ''2999-01-01''\<rparr>,
      \<lparr>task_id = 3, task_description = ''Renew pass'', task_expires = ''2024-06-15''\<rparr>]"

definition example_due :: "task_row \<Rightarrow> date" where
  "example_due r =
     (if task_id r = 1 then \<lparr>year = 2020, month = 1, day = 1\<rparr>
      else if task_id r = 2 then \<lparr>year = 2999, month = 1, day = 1\<rparr>
      else \<lparr>year = 2024, month = 6, day = 15\<rparr>)"

definition tasks_world :: world where
  "tasks_world =
     example_world\<lparr>db_file :=
       Some (empty_database\<lparr>tasks_table := Some \<lparr>rows = example_tasks, seq = 3\<rparr>\<rparr>)\<rparr>"




text \<open>The world after \<open>add-event Retro "2024-01-01 15:00"\<close> on a fresh store.\<close>

definition retro_world :: world where
  "retro_world = snd (add_event ''Retro'' ''2024-01-01 15:00'' (init_db example_world))"

text \<open>\<open>entry_start\<close> is the \<open>DTSTART\<close> value that belongs to a date-time, if it has
  one.  \<open>fraction_world\<close> is the world after
  \<open>add-event Standup 2024-01-01T09:00:00.250000\<close> on a fresh store.\<close>

definition entry_start :: "datetime option \<Rightarrow> string option" where
  "entry_start t =
     Option.bind t (\<lambda>dt. case dtstart_text dt of Inl e \<Rightarrow> None | Inr x \<Rightarrow> Some x)"

definition fraction_world :: world where
  "fraction_world =
     snd (add_event ''Standup'' ''2024-01-01T09:00:00.250000'' (init_db example_world))"

text \<open>Two events entered with UTC offsets, the later instant first; and the two events of
  the specification's example, entered without offsets, with the date-times of their
  rows.\<close>

definition offsets_world :: world where
  "offsets_world =
     snd (add_event ''London'' ''2024-01-01T09:00:00+00:00''
       (snd (add_event ''Tokyo'' ''2024-01-01T10:00:00+09:00'' (init_db example_world))))"

definition standup_world :: world where
  "standup_world =
     snd (add_event ''Retro'' ''2024-01-01 15:00''
       (snd (add_event ''Standup'' ''2024-01-02 09:00'' (init_db example_world))))"

definition standup_moment :: "event_row \<Rightarrow> datetime" where
  "standup_moment r =
     (if event_id r = 1
      then \<lparr>date_of = \<lparr>year = 2024, month = 1, day = 2\<rparr>, hour = 9, minute = 0, second = 0,
            microsecond = 0, tzinfo = None\<rparr>
      else \<lparr>date_of = \<lparr>year = 2024, month = 1, day = 1\<rparr>, hour = 15, minute = 0, second = 0,
            microsecond = 0, tzinfo = None\<rparr>)"

text \<open>Two events entered with the same UTC offset and different precision, the later
  one first, with the date-times of their rows.\<close>

definition osaka_world :: world where
  "osaka_world =
     snd (add_event ''Kyoto'' ''2024-01-01 10:00+09:00''
       (snd (add_event ''Osaka'' ''2024-01-01 10:00:00.500+09:00'' (init_db example_world))))"

definition osaka_moment :: "event_row \<Rightarrow> datetime" where
  "osaka_moment r =
     \<lparr>date_of = \<lparr>year = 2024, month = 1, day = 1\<rparr>, hour = 10, minute = 0, second = 0,
      microsecond = (if event_id r = 1 then 500000 else 0), tzinfo = Some 32400000000\<rparr>"





definition document_dest :: "string option \<Rightarrow> string \<Rightarrow> ppath" where
  "document_dest storage file_path =
     joinpath (joinpath STORAGE_DIR (storage_or_empty storage)) (path_name (Path file_path))"

definition invoice_world :: world where
  "invoice_world = snd (add_document ''Invoice'' ''/tmp/inv.pdf'' None (init_db example_world))"




text \<open>
  The date-time texts of the extended format, \<open>YYYY-MM-DD\<close>, one separator character,
  \<open>HH[:MM[:SS[.fff[fff]]]]\<close> and the UTC offset as \<open>isoformat\<close> writes it:
  \<open>extended_text t sep p\<close> is the text of the date-time \<open>t\<close> with the separator \<open>sep\<close>, written
  down to the precision \<open>p\<close>.
\<close>

datatype precision = Hours | Minutes | Seconds | Milliseconds | Microseconds

fun time_text :: "precision \<Rightarrow> datetime \<Rightarrow> string" where
  "time_text Hours t = zpad 2 (hour t)"
| "time_text Minutes t = zpad 2 (hour t) @ '':'' @ zpad 2 (minute t)"
| "time_text Seconds t = zpad 2 (hour t) @ '':'' @ zpad 2 (minute t) @ '':'' @ zpad 2 (second t)"
| "time_text Milliseconds t =
     zpad 2 (hour t) @ '':'' @ zpad 2 (minute t) @ '':'' @ zpad 2 (second t) @ ''.'' @
     zpad 3 (microsecond t div 1000)"
| "time_text Microseconds t =
     zpad 2 (hour t) @ '':'' @ zpad 2 (minute t) @ '':'' @ zpad 2 (second t) @ ''.'' @
     zpad 6 (microsecond t)"

definition extended_text :: "datetime \<Rightarrow> char \<Rightarrow> precision \<Rightarrow> string" where
  "extended_text t sep p =
     date_isoformat (date_of t) @ sep # time_text p t @ format_offset (tzinfo t)"

text \<open>The expiration texts that \<open>add_task\<close> writes: texts that read back as a date and are
  the text of that date.  \<open>tasks_ok\<close> says that every task of the store holds such a text.\<close>

definition stored_date_text :: "string \<Rightarrow> bool" where
  "stored_date_text s =
     (case date_fromisoformat s of None \<Rightarrow> False | Some d \<Rightarrow> date_isoformat d = s)"

definition tasks_ok :: "world \<Rightarrow> bool" where
  "tasks_ok w = list_all (\<lambda>r. stored_date_text (task_expires r)) (task_rows w)"

definition due_date :: "task_row \<Rightarrow> date" where
  "due_date r = (case date_fromisoformat (task_expires r) of None \<Rightarrow> \<lparr>year = 1, month = 1, day = 1\<rparr>
                 | Some d \<Rightarrow> d)"

section \<open>Digits and the round trip of dates\<close>

lemma of_char_digit_char: "k < 10 \<Longrightarrow> (of_char (digit_char k) :: nat) = 48 + k"
  by (simp add: digit_char_def)

lemma is_digit_digit_char: "k < 10 \<Longrightarrow> is_digit (digit_char k)"
  by (simp add: is_digit_def of_char_digit_char)

lemma digit_val_digit_char: "k < 10 \<Longrightarrow> digit_val (digit_char k) = k"
  by (simp add: digit_val_def of_char_digit_char)

lemma length_zpad [simp]: "length (zpad w n) = w"
  by (induction w arbitrary: n) simp_all

lemma list_all_is_digit_zpad: "list_all is_digit (zpad w n)"
  by (induction w arbitrary: n) (simp_all add: is_digit_digit_char)

lemma digits_val_snoc: "digits_val acc (xs @ [c]) = 10 * digits_val acc xs + digit_val c"
  by (induction xs arbitrary: acc) simp_all

lemma digits_val_zpad: "n < 10 ^ w \<Longrightarrow> digits_val 0 (zpad w n) = n"
proof (induction w arbitrary: n)
  case 0
  then show ?case by simp
next
  case (Suc w)
  from Suc.prems have "n div 10 < 10 ^ w"
    by (simp add: less_mult_imp_div_less mult.commute)
  then have "digits_val 0 (zpad w (n div 10)) = n div 10"
    by (rule Suc.IH)
  then show ?case
    by (simp add: digits_val_snoc digit_val_digit_char)
qed

lemma take_digits_zpad: "n < 10 ^ w \<Longrightarrow> take_digits w (zpad w n @ rest) = Some (n, rest)"
  by (simp add: take_digits_def list_all_is_digit_zpad digits_val_zpad)

lemma valid_date_bounds:
  "valid_date d \<Longrightarrow> year d < 10 ^ 4 \<and> month d < 10 ^ 2 \<and> day d < 10 ^ 2"
  by (auto simp: valid_date_def days_in_month_def split: if_splits)

lemma parse_isoformat_date_isoformat:
  assumes "valid_date d"
  shows "parse_isoformat_date (date_isoformat d @ rest) = Some (d, rest)"
proof -
  from valid_date_bounds [OF assms]
  have y: "year d < 10 ^ 4" and m: "month d < 10 ^ 2" and dd: "day d < 10 ^ 2"
    by simp_all
  show ?thesis
    unfolding parse_isoformat_date_def date_isoformat_def
    by (simp add: take_digits_zpad [OF y] take_digits_zpad [OF m] take_digits_zpad [OF dd]
        del: zpad.simps)
qed

lemma date_fromisoformat_isoformat:
  "valid_date d \<Longrightarrow> date_fromisoformat (date_isoformat d) = Some d"
  using parse_isoformat_date_isoformat [of d "[]"]
  by (simp add: date_fromisoformat_def)

lemma make_datetime_valid: "make_datetime d t tz = Some v \<Longrightarrow> valid_datetime v"
  by (auto simp: make_datetime_def Let_def split: prod.splits if_splits)

lemma fromisoformat_valid: "fromisoformat s = Some t \<Longrightarrow> valid_datetime t"
  by (auto simp: fromisoformat_def make_datetime_valid
      split: bind_splits prod.splits list.splits)

lemma valid_datetime_bounds:
  assumes "valid_datetime t"
  shows "year (date_of t) < 10 ^ 4" "month (date_of t) < 10 ^ 2" "day (date_of t) < 10 ^ 2"
    "hour t < 10 ^ 2" "minute t < 10 ^ 2" "second t < 10 ^ 2" "microsecond t < 10 ^ 6"
  using assms valid_date_bounds [of "date_of t"] by (simp_all add: valid_datetime_def)

section \<open>The parser reads what \<open>isoformat\<close> writes\<close>

lemma digit_char_not_sign: "k < 10 \<Longrightarrow> digit_char k \<noteq> CHR ''+'' \<and> digit_char k \<noteq> CHR ''-''"
proof -
  assume "k < 10"
  then have "(of_char (digit_char k) :: nat) = 48 + k"
    by (rule of_char_digit_char)
  moreover have "(of_char CHR ''+'' :: nat) = 43" "(of_char CHR ''-'' :: nat) = 45"
    by simp_all
  ultimately show ?thesis by auto
qed

lemma zpad_no_sign: "c \<in> set (zpad w n) \<Longrightarrow> c \<noteq> CHR ''+'' \<and> c \<noteq> CHR ''-''"
  by (induction w arbitrary: n) (auto simp: digit_char_not_sign)

lemma split_sign_plain:
  "\<forall>c \<in> set s. c \<noteq> CHR ''+'' \<and> c \<noteq> CHR ''-'' \<Longrightarrow> split_sign s = (s, None)"
  by (induction s) auto

lemma format_time_no_sign: "c \<in> set (format_time t) \<Longrightarrow> c \<noteq> CHR ''+'' \<and> c \<noteq> CHR ''-''"
  using zpad_no_sign by (fastforce simp: format_time_def simp del: zpad.simps split: if_splits)

lemma zpad_not_Nil: "0 < w \<Longrightarrow> zpad w n \<noteq> []"
  by (cases w) simp_all

lemma parse_fraction_zpad: "us < 10 ^ 6 \<Longrightarrow> parse_fraction (''.'' @ zpad 6 us) = Some us"
  by (simp add: parse_fraction_def list_all_is_digit_zpad digits_val_zpad del: zpad.simps)

lemma parse_format_time:
  assumes "hour t < 10 ^ 2" and "minute t < 10 ^ 2" and "second t < 10 ^ 2"
    and "microsecond t < 10 ^ 6"
  shows "parse_hh_mm_ss_ff (format_time t) = Some (hour t, minute t, second t, microsecond t)"
proof (cases "microsecond t = 0")
  case True
  then show ?thesis
    unfolding parse_hh_mm_ss_ff_def format_time_def
    using take_digits_zpad [OF assms(1)] take_digits_zpad [OF assms(2)]
      take_digits_zpad [OF assms(3), of "[]"]
    by (simp del: zpad.simps)
next
  case False
  have z: "zpad 6 (microsecond t) \<noteq> []"
    by (rule zpad_not_Nil) simp
  from False show ?thesis
    unfolding parse_hh_mm_ss_ff_def format_time_def
    using take_digits_zpad [OF assms(1)] take_digits_zpad [OF assms(2)]
      take_digits_zpad [OF assms(3)] parse_fraction_zpad [OF assms(4)]
    by (simp del: zpad.simps)
qed

lemma fromisoformat_date_time:
  assumes "valid_datetime v" and "tzinfo v = None"
  shows "fromisoformat (date_isoformat (date_of v) @ sep # format_time v) = Some v"
proof -
  note B = valid_datetime_bounds [OF assms(1)]
  from assms(1) have vd: "valid_date (date_of v)"
    by (simp add: valid_datetime_def)
  have sp: "split_sign (format_time v) = (format_time v, None)"
    by (rule split_sign_plain) (use format_time_no_sign in blast)
  have pt: "parse_isoformat_time (format_time v) =
      Some ((hour v, minute v, second v, microsecond v), None)"
    by (simp add: parse_isoformat_time_def sp parse_format_time [OF B(4) B(5) B(6) B(7)])
  have "\<lparr>date_of = date_of v, hour = hour v, minute = minute v, second = second v,
      microsecond = microsecond v, tzinfo = None\<rparr> = v"
    using assms(2) by (cases v) simp
  then have mk: "make_datetime (date_of v) (hour v, minute v, second v, microsecond v) None = Some v"
    using assms(1) by (simp add: make_datetime_def)
  show ?thesis
    by (simp add: fromisoformat_def parse_isoformat_date_isoformat [OF vd] pt mk)
qed

lemma fromisoformat_isoformat_naive:
  "valid_datetime v \<Longrightarrow> tzinfo v = None \<Longrightarrow> fromisoformat (isoformat v) = Some v"
  using fromisoformat_date_time [of v "CHR ''T''"]
  by (simp add: isoformat_def format_offset_def)

lemma time_text_no_sign: "c \<in> set (time_text p t) \<Longrightarrow> c \<noteq> CHR ''+'' \<and> c \<noteq> CHR ''-''"
  using zpad_no_sign by (cases p) (fastforce simp del: zpad.simps)+

lemma split_sign_append:
  assumes "\<forall>c \<in> set s. c \<noteq> CHR ''+'' \<and> c \<noteq> CHR ''-''" and "x = CHR ''+'' \<or> x = CHR ''-''"
  shows "split_sign (s @ x # r) = (s, Some (x, r))"
  using assms by (induction s) auto

lemma parse_fraction_zpad3: "ms < 10 ^ 3 \<Longrightarrow> parse_fraction (''.'' @ zpad 3 ms) = Some (ms * 1000)"
  by (simp add: parse_fraction_def list_all_is_digit_zpad digits_val_zpad del: zpad.simps)

lemma parse_time_text:
  assumes "hour t < 10 ^ 2" and "minute t < 10 ^ 2" and "second t < 10 ^ 2"
    and "microsecond t < 10 ^ 6"
  shows "\<exists>m s u. parse_hh_mm_ss_ff (time_text p t) = Some (hour t, m, s, u) \<and>
           m \<le> minute t \<and> s \<le> second t \<and> u \<le> microsecond t"
proof (cases p)
  case Hours
  then show ?thesis
    unfolding parse_hh_mm_ss_ff_def
    using take_digits_zpad [OF assms(1), of "[]"] by (simp del: zpad.simps)
next
  case Minutes
  then show ?thesis
    unfolding parse_hh_mm_ss_ff_def
    using take_digits_zpad [OF assms(1)] take_digits_zpad [OF assms(2), of "[]"]
    by (simp del: zpad.simps)
next
  case Seconds
  then show ?thesis
    unfolding parse_hh_mm_ss_ff_def
    using take_digits_zpad [OF assms(1)] take_digits_zpad [OF assms(2)]
      take_digits_zpad [OF assms(3), of "[]"]
    by (simp del: zpad.simps)
next
  case Milliseconds
  from assms(4) have ms: "microsecond t div 1000 < 10 ^ 3"
    by (simp add: less_mult_imp_div_less)
  have le: "microsecond t div 1000 * 1000 \<le> microsecond t"
    by simp
  from Milliseconds le show ?thesis
    unfolding parse_hh_mm_ss_ff_def
    using take_digits_zpad [OF assms(1)] take_digits_zpad [OF assms(2)]
      take_digits_zpad [OF assms(3)] parse_fraction_zpad3 [OF ms]
    by (simp del: zpad.simps)
next
  case Microseconds
  then show ?thesis
    unfolding parse_hh_mm_ss_ff_def
    using take_digits_zpad [OF assms(1)] take_digits_zpad [OF assms(2)]
      take_digits_zpad [OF assms(3)] parse_fraction_zpad [OF assms(4)]
    by (simp del: zpad.simps)
qed

lemma parse_tz_range:
  assumes "parse_hh_mm_ss_ff s = Some (h, m, sec, us)"
    and "length s = 5 \<or> length s = 8 \<or> length s = 15"
    and "h < 24" and "m < 60" and "sec < 60" and "us < 1000000"
  shows "\<exists>off. parse_tz sign s = Some off \<and> - 86400000000 < off \<and> off < 86400000000"
proof -
  from assms(3-6) have "h \<le> 23" "m \<le> 59" "sec \<le> 59" "us \<le> 999999"
    by simp_all
  then have "(h * 60 + m) * 60 + sec \<le> (23 * 60 + 59) * 60 + 59"
    by (intro add_mono mult_mono) simp_all
  then have "((h * 60 + m) * 60 + sec) * 1000000 \<le> ((23 * 60 + 59) * 60 + 59) * 1000000"
    by (rule mult_right_mono) simp
  with \<open>us \<le> 999999\<close> have "((h * 60 + m) * 60 + sec) * 1000000 + us < 86400000000"
    by simp
  then have "int (((h * 60 + m) * 60 + sec) * 1000000 + us) < 86400000000"
    by (simp only: of_nat_less_numeral_iff)
  with assms(1,2) show ?thesis
    by (auto simp: parse_tz_def Let_def)
qed

lemma parse_format_offset:
  assumes "- 86400000000 < off" and "off < 86400000000"
  shows "\<exists>sign rest off'. format_offset (Some off) = sign # rest \<and>
           (sign = CHR ''+'' \<or> sign = CHR ''-'') \<and> parse_tz sign rest = Some off' \<and>
           - 86400000000 < off' \<and> off' < 86400000000"
proof -
  define a where "a = nat \<bar>off\<bar>"
  define hh where "hh = a div 3600000000"
  define mm where "mm = (a mod 3600000000) div 60000000"
  define ss where "ss = (a mod 60000000) div 1000000"
  define us where "us = a mod 1000000"
  from assms have a: "a < 86400000000"
    by (simp add: a_def)
  then have hh: "hh < 24"
    by (simp add: hh_def less_mult_imp_div_less)
  have mm: "mm < 60"
    by (simp add: mm_def less_mult_imp_div_less)
  have ss: "ss < 60"
    by (simp add: ss_def less_mult_imp_div_less)
  have us: "us < 1000000"
    by (simp add: us_def)
  from hh mm ss us have b: "hh < 10 ^ 2" "mm < 10 ^ 2" "ss < 10 ^ 2" "us < 10 ^ 6"
    by simp_all
  define sign where "sign = (if off < 0 then CHR ''-'' else CHR ''+'')"
  define rest where "rest = zpad 2 hh @ '':'' @ zpad 2 mm @
      (if ss \<noteq> 0 \<or> us \<noteq> 0
       then '':'' @ zpad 2 ss @ (if us \<noteq> 0 then ''.'' @ zpad 6 us else [])
       else [])"
  have f: "format_offset (Some off) = sign # rest"
    by (simp add: format_offset_def Let_def a_def hh_def mm_def ss_def us_def sign_def rest_def
        del: zpad.simps)
  have z: "zpad 6 us \<noteq> []"
    by (rule zpad_not_Nil) simp
  have "\<exists>s' u'. parse_hh_mm_ss_ff rest = Some (hh, mm, s', u') \<and> s' < 60 \<and> u' < 1000000 \<and>
      (length rest = 5 \<or> length rest = 8 \<or> length rest = 15)"
    unfolding rest_def parse_hh_mm_ss_ff_def
    using take_digits_zpad [OF b(1)] take_digits_zpad [OF b(2)] take_digits_zpad [OF b(2), of "[]"]
      take_digits_zpad [OF b(3)] take_digits_zpad [OF b(3), of "[]"] parse_fraction_zpad [OF b(4)]
      ss us z
    by (simp del: zpad.simps)
  then obtain s' u' where p: "parse_hh_mm_ss_ff rest = Some (hh, mm, s', u')"
    and r: "s' < 60" "u' < 1000000" "length rest = 5 \<or> length rest = 8 \<or> length rest = 15"
    by blast
  from parse_tz_range [OF p r(3) hh mm r(1) r(2), of sign] f show ?thesis
    by (auto simp: sign_def)
qed

lemma fromisoformat_extended:
  assumes "valid_datetime v"
  shows "\<exists>dt. fromisoformat (extended_text v sep p) = Some dt \<and> date_of dt = date_of v"
proof -
  note B = valid_datetime_bounds [OF assms]
  from assms have vd: "valid_date (date_of v)" and r: "hour v < 24" "minute v < 60" "second v < 60"
      "microsecond v < 1000000"
    by (simp_all add: valid_datetime_def)
  from parse_time_text [OF B(4) B(5) B(6) B(7), of p] obtain m s u where
    pt: "parse_hh_mm_ss_ff (time_text p v) = Some (hour v, m, s, u)"
    and le: "m \<le> minute v" "s \<le> second v" "u \<le> microsecond v"
    by blast
  have ns: "\<forall>c \<in> set (time_text p v). c \<noteq> CHR ''+'' \<and> c \<noteq> CHR ''-''"
    using time_text_no_sign by blast
  have "\<exists>tz. parse_isoformat_time (time_text p v @ format_offset (tzinfo v)) =
        Some ((hour v, m, s, u), tz) \<and>
      (case tz of None \<Rightarrow> True | Some off \<Rightarrow> - 86400000000 < off \<and> off < 86400000000)"
  proof (cases "tzinfo v")
    case None
    then show ?thesis
      by (simp add: parse_isoformat_time_def format_offset_def split_sign_plain [OF ns] pt)
  next
    case (Some off)
    with assms have "- 86400000000 < off" "off < 86400000000"
      by (simp_all add: valid_datetime_def)
    from parse_format_offset [OF this] obtain sign rest off' where
      f: "format_offset (Some off) = sign # rest" and sg: "sign = CHR ''+'' \<or> sign = CHR ''-''"
      and tz: "parse_tz sign rest = Some off'" "- 86400000000 < off'" "off' < 86400000000"
      by blast
    from Some f split_sign_append [OF ns sg, of rest] pt tz show ?thesis
      by (simp add: parse_isoformat_time_def)
  qed
  then obtain tz where
    pi: "parse_isoformat_time (time_text p v @ format_offset (tzinfo v)) = Some ((hour v, m, s, u), tz)"
    and tzr: "case tz of None \<Rightarrow> True | Some off \<Rightarrow> - 86400000000 < off \<and> off < 86400000000"
    by blast
  let ?dt = "\<lparr>date_of = date_of v, hour = hour v, minute = m, second = s, microsecond = u,
      tzinfo = tz\<rparr>"
  from vd r le tzr have "valid_datetime ?dt"
    by (simp add: valid_datetime_def)
  then have mk: "make_datetime (date_of v) (hour v, m, s, u) tz = Some ?dt"
    by (simp add: make_datetime_def)
  have "fromisoformat (extended_text v sep p) = Some ?dt"
    by (simp add: fromisoformat_def extended_text_def parse_isoformat_date_isoformat [OF vd] pi mk)
  then show ?thesis by simp
qed

lemma fromisoformat_plain_date:
  assumes "valid_date d"
  shows "\<exists>dt. fromisoformat (date_isoformat d) = Some dt \<and> date_of dt = d"
  using assms parse_isoformat_date_isoformat [OF assms, of "[]"]
  by (simp add: fromisoformat_def make_datetime_def valid_datetime_def)

section \<open>Rejected dates and times\<close>

text \<open>
  Claim C9, as stated, fails for \<open>add_task\<close>: its argument is parsed as a date-time and
  not as a date, so a string that is not a valid date is not always rejected.
  \<open>2024-01-02 15:30\<close> does not parse as a date, and \<open>add_task\<close> accepts it and inserts a
  row.
\<close>

theorem add_task_accepts_non_date_counterexample:
  "date_fromisoformat ''2024-01-02 15:30'' = None \<and>
   fst (add_task ''Pay rent'' ''2024-01-02 15:30'' (init_db example_world)) = Returned \<and>
   map task_expires
     (task_rows (snd (add_task ''Pay rent'' ''2024-01-02 15:30'' (init_db example_world)))) =
     [''2024-01-02'']"
  by code_simp

text \<open>
  Claim C9, amended.  When the argument does not parse as a date-time, which is what both
  \<open>add_task\<close> and \<open>add_event\<close> parse it as, they raise \<open>ValueError\<close> before they touch
  anything: the world they leave is the world they were given, so no row is inserted.
  Nothing catches the exception: \<open>main\<close> ends with status 1, and the only change since the
  start of the process is the schema initialisation of \<open>init_db\<close>.
\<close>

theorem unparsable_time_aborts_without_insert:
  assumes "fromisoformat s = None"
  shows "add_task description s w = (Raised ValueError, w) \<and>
         add_event name s w = (Raised ValueError, w) \<and>
         main (Argv (Some ''add-task'') [description, s] None) w = (1, init_db w) \<and>
         main (Argv (Some ''add-event'') [name, s] None) w = (1, init_db w)"
  using assms by (simp add: add_task_def add_event_def main_def)

theorem unparsable_time_aborts_without_insert_witness:
  "fromisoformat ''2024-02-30'' = None \<and>
   add_task ''Pay rent'' ''2024-02-30'' example_world = (Raised ValueError, example_world) \<and>
   add_event ''Standup'' ''2024-02-30'' example_world = (Raised ValueError, example_world) \<and>
   main (Argv (Some ''add-task'') [''Pay rent'', ''2024-02-30''] None) example_world =
     (1, init_db example_world) \<and>
   main (Argv (Some ''add-event'') [''Standup'', ''2024-02-30''] None) example_world =
     (1, init_db example_world)"
proof -
  have p: "fromisoformat ''2024-02-30'' = None"
    by code_simp
  from unparsable_time_aborts_without_insert [OF p, of "''Pay rent''" example_world "''Standup''"] p
  show ?thesis by simp
qed

section \<open>Tasks: the stored date and the EXPIRED mark\<close>

text \<open>
  Claim C10, as stated, fails: \<open>add_task\<close> does not accept every ISO-8601 date-time
  string, only those that \<open>datetime.fromisoformat\<close> parses.  \<open>2024-001T15:30:00\<close>, a
  date-time with an ordinal date, is rejected and no row is stored.
\<close>

theorem add_task_rejects_ordinal_date_counterexample:
  "fst (add_task ''Pay rent'' ''2024-001T15:30:00'' (init_db example_world)) = Raised ValueError \<and>
   task_rows (snd (add_task ''Pay rent'' ''2024-001T15:30:00'' (init_db example_world))) = []"
  by code_simp

text \<open>
  Claim C10, amended.  \<open>add_task\<close> accepts exactly the strings that
  \<open>datetime.fromisoformat\<close> parses and stores \<open>str\<close> of the date part only: the new row
  holds \<open>YYYY-MM-DD\<close>, which reads back with \<open>date.fromisoformat\<close>.  Among the accepted
  strings are, for every valid date-time \<open>v\<close>, its plain date and every text
  \<open>extended_text v sep p\<close>: the date, any one separator character, the time written to any
  of the five precisions, and the offset if \<open>v\<close> has one.  All of them store the date of
  \<open>v\<close>.  The witness is the call with \<open>2024-01-02 15:30\<close>, stored as \<open>2024-01-02\<close>.
\<close>

theorem add_task_keeps_date_part:
  assumes "tasks_table (connect w) = Some t" and "valid_datetime v"
  shows "add_task description (extended_text v sep p) w =
           (Returned,
            w\<lparr>db_file := Some ((connect w)\<lparr>tasks_table := Some (insert_row
                 (\<lambda>i. \<lparr>task_id = i, task_description = description,
                        task_expires = date_isoformat (date_of v)\<rparr>) t)\<rparr>)\<rparr>) \<and>
         add_task description (date_isoformat (date_of v)) w =
           (Returned,
            w\<lparr>db_file := Some ((connect w)\<lparr>tasks_table := Some (insert_row
                 (\<lambda>i. \<lparr>task_id = i, task_description = description,
                        task_expires = date_isoformat (date_of v)\<rparr>) t)\<rparr>)\<rparr>) \<and>
         date_fromisoformat (date_isoformat (date_of v)) = Some (date_of v) \<and>
         (fst (add_task description s w) = Returned \<longleftrightarrow> fromisoformat s \<noteq> None) \<and>
         (fromisoformat s = Some dt \<longrightarrow>
            task_rows (snd (add_task description s w)) =
              rows t @ [\<lparr>task_id = Suc (seq t), task_description = description,
                         task_expires = date_isoformat (date_of dt)\<rparr>])"
proof -
  from assms(2) have vd: "valid_date (date_of v)"
    by (simp add: valid_datetime_def)
  from fromisoformat_extended [OF assms(2), of sep p] obtain d1 where
    d1: "fromisoformat (extended_text v sep p) = Some d1" "date_of d1 = date_of v"
    by blast
  from fromisoformat_plain_date [OF vd] obtain d2 where
    d2: "fromisoformat (date_isoformat (date_of v)) = Some d2" "date_of d2 = date_of v"
    by blast
  from assms(1) d1 d2 date_fromisoformat_isoformat [OF vd] show ?thesis
    by (cases "fromisoformat s")
      (simp_all add: add_task_def task_rows_def connect_def insert_row_def)
qed

theorem add_task_keeps_date_part_witness:
  "valid_datetime \<lparr>date_of = \<lparr>year = 2024, month = 1, day = 2\<rparr>, hour = 15, minute = 30,
                    second = 0, microsecond = 0, tzinfo = None\<rparr> \<and>
   extended_text \<lparr>date_of = \<lparr>year = 2024, month = 1, day = 2\<rparr>, hour = 15, minute = 30,
                   second = 0, microsecond = 0, tzinfo = None\<rparr> CHR '' '' Minutes =
     ''2024-01-02 15:30'' \<and>
   fst (add_task ''Pay rent'' ''2024-01-02 15:30'' (init_db example_world)) = Returned \<and>
   task_rows (snd (add_task ''Pay rent'' ''2024-01-02 15:30'' (init_db example_world))) =
     [\<lparr>task_id = 1, task_description = ''Pay rent'', task_expires = ''2024-01-02''\<rparr>] \<and>
   fromisoformat ''2024-01-02T15:30:00.250+05:30'' \<noteq> None \<and>
   task_rows (snd (add_task ''Pay rent'' ''2024-01-02T15:30:00.250+05:30'' (init_db example_world))) =
     [\<lparr>task_id = 1, task_description = ''Pay rent'', task_expires = ''2024-01-02''\<rparr>]"
proof -
  let ?v = "\<lparr>date_of = \<lparr>year = 2024, month = 1, day = 2\<rparr>, hour = 15, minute = 30,
           second = 0, microsecond = 0, tzinfo = None\<rparr>"
  let ?w = "init_db example_world"
  have t: "tasks_table (connect ?w) = Some empty_table"
    by (simp add: connect_def init_db_def example_world_def create_if_not_exists_def
        empty_database_def)
  have v: "valid_datetime ?v"
    by code_simp
  have x: "extended_text ?v CHR '' '' Minutes = ''2024-01-02 15:30''"
    by code_simp
  have f: "date_isoformat (date_of ?v) = ''2024-01-02''"
    by code_simp
  have p: "fromisoformat ''2024-01-02T15:30:00.250+05:30'' =
      Some \<lparr>date_of = \<lparr>year = 2024, month = 1, day = 2\<rparr>, hour = 15, minute = 30,
            second = 0, microsecond = 250000, tzinfo = Some 19800000000\<rparr>"
    by code_simp
  note a = add_task_keeps_date_part [OF t v, of "''Pay rent''" "CHR '' ''" Minutes
      "''2024-01-02T15:30:00.250+05:30''", unfolded x f]
  from a have "add_task ''Pay rent'' ''2024-01-02 15:30'' ?w =
      (Returned, ?w\<lparr>db_file := Some ((connect ?w)\<lparr>tasks_table := Some (insert_row
         (\<lambda>i. \<lparr>task_id = i, task_description = ''Pay rent'',
                task_expires = ''2024-01-02''\<rparr>) empty_table)\<rparr>)\<rparr>)"
    by blast
  then have r1: "fst (add_task ''Pay rent'' ''2024-01-02 15:30'' ?w) = Returned"
    and r2: "task_rows (snd (add_task ''Pay rent'' ''2024-01-02 15:30'' ?w)) =
      [\<lparr>task_id = 1, task_description = ''Pay rent'', task_expires = ''2024-01-02''\<rparr>]"
    by (simp_all add: task_rows_def connect_def insert_row_def empty_table_def)
  from a p f have r3: "task_rows (snd (add_task ''Pay rent'' ''2024-01-02T15:30:00.250+05:30'' ?w)) =
      [\<lparr>task_id = 1, task_description = ''Pay rent'', task_expires = ''2024-01-02''\<rparr>]"
    by (simp add: empty_table_def)
  from v x r1 r2 r3 p show ?thesis by simp
qed

lemma print_tasks_valid:
  assumes "\<forall>r \<in> set rs. valid_date (due r) \<and> task_expires r = date_isoformat (due r)"
  shows "print_tasks rs w =
           (Returned, fold (\<lambda>r. print (task_line r
              (if date_less (due r) (clock_today w) then ''EXPIRED'' else []))) rs w)"
  using assms
proof (induction rs arbitrary: w)
  case Nil
  then show ?case by simp
next
  case (Cons r rs)
  have ct: "clock_today (print x w) = clock_today w" for x
    by (simp add: print_def)
  from Cons.prems have "date_fromisoformat (task_expires r) = Some (due r)"
    by (simp add: date_fromisoformat_isoformat)
  moreover from Cons.prems have "\<forall>r \<in> set rs. valid_date (due r) \<and> task_expires r = date_isoformat (due r)"
    by simp
  ultimately show ?case
    by (simp add: Cons.IH ct)
qed

text \<open>
  Claim C2.  In a store whose tasks hold dates as \<open>add_task\<close> writes them (\<open>due r\<close> is the
  date of row \<open>r\<close>), \<open>list_tasks\<close> returns normally and prints one line per task, in the order
  of \<open>ORDER BY expires\<close>, whose status is \<open>EXPIRED\<close> exactly when the date of the row is
  strictly before today's date.  Both sides of the comparison are dates, without a time of
  day, and the comparison is strict: a task due today is not marked.
\<close>

theorem list_tasks_expired_iff_past:
  assumes "tasks_table (connect w) = Some t"
    and "\<forall>r \<in> set (rows t). valid_date (due r) \<and> task_expires r = date_isoformat (due r)"
  shows "list_tasks w =
           (Returned,
            fold (\<lambda>r. print (task_line r
                   (if date_less (due r) (clock_today w) then ''EXPIRED'' else [])))
              (sort_key task_expires (rows t)) (w\<lparr>db_file := Some (connect w)\<rparr>)) \<and>
         \<not> date_less (clock_today w) (clock_today w)"
proof -
  have "\<forall>r \<in> set (sort_key task_expires (rows t)).
          valid_date (due r) \<and> task_expires r = date_isoformat (due r)"
    using assms(2) by simp
  from print_tasks_valid [OF this] assms(1) show ?thesis
    by (simp add: list_tasks_def Let_def date_less_def)
qed

theorem list_tasks_expired_iff_past_witness:
  "tasks_table (connect tasks_world) = Some \<lparr>rows = example_tasks, seq = 3\<rparr> \<and>
   list_all (\<lambda>r. valid_date (example_due r) \<and> task_expires r = date_isoformat (example_due r))
     example_tasks \<and>
   fst (list_tasks tasks_world) = Returned \<and>
   stdout (snd (list_tasks tasks_world)) =
     [Line ''1: Pay rent (due 2020-01-01) EXPIRED'',
      Line ''3: Renew pass (due 2024-06-15) '',
      Line ''2: Pay rent (due 2999-01-01) '']"
proof -
  have h1: "tasks_table (connect tasks_world) = Some \<lparr>rows = example_tasks, seq = 3\<rparr>"
    by (simp add: tasks_world_def connect_def)
  have h2: "list_all (\<lambda>r. valid_date (example_due r) \<and>
              task_expires r = date_isoformat (example_due r)) example_tasks"
    by code_simp
  then have h3: "\<forall>r \<in> set (rows \<lparr>rows = example_tasks, seq = 3\<rparr>).
              valid_date (example_due r) \<and> task_expires r = date_isoformat (example_due r)"
    by (simp add: list_all_iff)
  have e: "stdout (fold (\<lambda>r. print (task_line r
                   (if date_less (example_due r) (clock_today tasks_world) then ''EXPIRED'' else [])))
              (sort_key task_expires (rows \<lparr>rows = example_tasks, seq = 3\<rparr>))
              (tasks_world\<lparr>db_file := Some (connect tasks_world)\<rparr>)) =
     [Line ''1: Pay rent (due 2020-01-01) EXPIRED'',
      Line ''3: Renew pass (due 2024-06-15) '',
      Line ''2: Pay rent (due 2999-01-01) '']"
    by code_simp
  from list_tasks_expired_iff_past [OF h1 h3] h1 h2 e
  show ?thesis by simp
qed

section \<open>Start-up and the command line\<close>

declare path_mkdir.simps [simp del]

lemma init_db_rows:
  "task_rows (init_db w) = task_rows w \<and> note_rows (init_db w) = note_rows w \<and>
   event_rows (init_db w) = event_rows w \<and> document_rows (init_db w) = document_rows w"
  by (simp add: task_rows_def note_rows_def event_rows_def document_rows_def init_db_def
      connect_def create_if_not_exists_def empty_table_def empty_database_def Let_def
      split: option.splits)

lemma init_db_idem: "init_db (init_db w) = init_db w"
  by (simp add: init_db_def Let_def connect_def create_if_not_exists_def split: option.splits)

lemma init_db_other:
  "files (init_db w) = files w \<and> cwd (init_db w) = cwd w \<and>
   calendar_ics (init_db w) = calendar_ics w \<and> stdout (init_db w) = stdout w \<and>
   regenerations (init_db w) = regenerations w \<and> calendar_writes (init_db w) = calendar_writes w"
  by (simp add: init_db_def Let_def)

lemma classify_word: "c = [] \<or> hd c \<noteq> CHR ''-'' \<Longrightarrow> classify b c = Arg"
  by (auto simp: classify_def)

lemma classify_separator: "classify False ''--'' = Help_opt False None"
  by code_simp

lemma sub_parse_command: "sub_parse extras c toks \<noteq> Scanned None ops st"
  by (simp add: sub_parse_def split: sub_result.splits)

lemma top_scan_no_command:
  "top_scan extras ss = Scanned None ops st \<longleftrightarrow> ss = [] \<and> \<not> extras \<and> ops = [] \<and> st = None"
proof (induction ss arbitrary: extras)
  case Nil
  show ?case by auto
next
  case (Cons s ss)
  from Cons [of True] sub_parse_command [of extras s ss ops st] show ?case
    by (auto split: token.splits)
qed

lemma top_scan_unknown_options:
  "list_all (\<lambda>s. classify False s = Unknown_opt) pre \<Longrightarrow>
     top_scan extras (pre @ ss) = (if pre = [] then top_scan extras ss else top_scan True ss)"
proof (induction pre arbitrary: extras)
  case Nil
  show ?case by simp
next
  case (Cons s pre)
  from Cons.prems have s: "classify False s = Unknown_opt"
    and pre: "list_all (\<lambda>s. classify False s = Unknown_opt) pre"
    by simp_all
  from s classify_separator have "s \<noteq> ''--''" by auto
  with s Cons.IH [OF pre, of True] show ?case by simp
qed

lemma top_scan_help:
  "top_scan extras (''-h'' # rest) = Exit_help None"
  "top_scan extras (''--help'' # rest) = Exit_help None"
  by (simp_all add: classify_def takes_help_def)

lemma top_scan_unknown_command:
  assumes "c \<notin> set commands" and "c = [] \<or> hd c \<noteq> CHR ''-''"
  shows "top_scan extras (c # rest) = Exit_usage"
proof -
  from assms(2) have "c \<noteq> ''--''" by auto
  with assms(1) classify_word [OF assms(2), of False] show ?thesis by simp
qed

text \<open>
  Claim C8, as stated, fails: a command word that \<open>build_parser\<close> did not register is
  rejected by \<open>parse_args\<close> itself, which ends the process with status 2 before the
  \<open>else\<close> branch of \<open>main\<close> is reached; and \<open>init_db\<close> has run before the arguments are
  parsed, so a first run creates the database.
\<close>

theorem unknown_command_exit_status_counterexample:
  "fst (main_argv [''frobnicate''] example_world) = 2 \<and>
   db_file example_world = None \<and>
   db_file (snd (main_argv [] example_world)) =
     Some \<lparr>tasks_table = Some empty_table, notes_table = Some empty_table,
           events_table = Some empty_table, documents_table = Some empty_table\<rparr>"
  by code_simp

text \<open>
  Claim C8, amended.  Let \<open>pre\<close> be any run of options that the program does not know,
  such as \<open>--bogus\<close> or \<open>--storage=x\<close>; it may be empty.  Without any argument, \<open>main\<close> prints
  the help text and ends with status 0, and no other command line reaches that branch of
  \<open>main\<close>.  With \<open>-h\<close> or \<open>--help\<close> after \<open>pre\<close>, argparse prints the help text and ends the
  process with status 0, whatever follows.  A command line that is \<open>pre\<close> alone and not
  empty ends with status 2 after the usage error, and so does one in which \<open>pre\<close> is
  followed by a word that is not a registered command.  In all these cases the only
  effect besides the output is the schema initialisation of \<open>init_db\<close>, which inserts no
  row, leaves the file tree and the calendar file alone, and changes nothing when it is
  repeated.
\<close>

theorem help_without_command_usage_error_for_unknown:
  assumes "list_all (\<lambda>s. classify False s = Unknown_opt) pre"
  shows "main_argv [] w = (0, (init_db w)\<lparr>stdout := stdout w @ [Help_text]\<rparr>) \<and>
         (scan_args ss = Scanned None ops st \<longleftrightarrow> ss = [] \<and> ops = [] \<and> st = None) \<and>
         main_argv (pre @ ''-h'' # rest) w = (0, (init_db w)\<lparr>stdout := stdout w @ [Help_text]\<rparr>) \<and>
         main_argv (pre @ ''--help'' # rest) w =
           (0, (init_db w)\<lparr>stdout := stdout w @ [Help_text]\<rparr>) \<and>
         (pre \<noteq> [] \<longrightarrow>
            main_argv pre w = (2, (init_db w)\<lparr>stdout := stdout w @ [Usage_error]\<rparr>)) \<and>
         (c \<notin> set commands \<and> (c = [] \<or> hd c \<noteq> CHR ''-'') \<longrightarrow>
            main_argv (pre @ c # rest) w =
              (2, (init_db w)\<lparr>stdout := stdout w @ [Usage_error]\<rparr>)) \<and>
         task_rows (init_db w) = task_rows w \<and> note_rows (init_db w) = note_rows w \<and>
         event_rows (init_db w) = event_rows w \<and> document_rows (init_db w) = document_rows w \<and>
         files (init_db w) = files w \<and> calendar_ics (init_db w) = calendar_ics w \<and>
         init_db (init_db w) = init_db w"
proof -
  note u = top_scan_unknown_options [OF assms]
  have o: "stdout (init_db w) = stdout w"
    by (simp add: init_db_other)
  have a: "main_argv [] w = (0, (init_db w)\<lparr>stdout := stdout w @ [Help_text]\<rparr>)"
    by (simp add: main_argv_def scan_args_def main_def Let_def o)
  have b: "scan_args ss = Scanned None ops st \<longleftrightarrow> ss = [] \<and> ops = [] \<and> st = None"
    by (simp add: scan_args_def top_scan_no_command)
  have h: "scan_args (pre @ ''-h'' # rest) = Exit_help None"
    "scan_args (pre @ ''--help'' # rest) = Exit_help None"
    by (simp_all add: scan_args_def u top_scan_help del: top_scan.simps)
  have p: "scan_args pre = Exit_usage" if "pre \<noteq> []"
    using u [of False "[]"] that by (simp add: scan_args_def)
  have c: "scan_args (pre @ c # rest) = Exit_usage"
    if "c \<notin> set commands" "c = [] \<or> hd c \<noteq> CHR ''-''"
    using top_scan_unknown_command [OF that] by (simp add: scan_args_def u del: top_scan.simps)
  from a b h p c show ?thesis
    by (simp add: main_argv_def Let_def o init_db_rows init_db_idem init_db_other)
qed

theorem help_without_command_usage_error_for_unknown_witness:
  "list_all (\<lambda>s. classify False s = Unknown_opt) [''--storage=x'', ''--bogus''] \<and>
   ''frobnicate'' \<notin> set commands \<and>
   main_argv [] example_world =
     (0, (init_db example_world)\<lparr>stdout := stdout example_world @ [Help_text]\<rparr>) \<and>
   main_argv [''--storage=x'', ''--bogus'', ''-h'', ''frobnicate''] example_world =
     (0, (init_db example_world)\<lparr>stdout := stdout example_world @ [Help_text]\<rparr>) \<and>
   main_argv [''--storage=x'', ''--bogus''] example_world =
     (2, (init_db example_world)\<lparr>stdout := stdout example_world @ [Usage_error]\<rparr>) \<and>
   main_argv [''--storage=x'', ''--bogus'', ''frobnicate'', ''x''] example_world =
     (2, (init_db example_world)\<lparr>stdout := stdout example_world @ [Usage_error]\<rparr>)"
proof -
  have l: "list_all (\<lambda>s. classify False s = Unknown_opt) [''--storage=x'', ''--bogus'']"
    by code_simp
  have n: "''frobnicate'' \<notin> set commands"
    by (simp add: commands_def)
  from help_without_command_usage_error_for_unknown [OF l, of example_world "[]" "[]" None
      "[''frobnicate'']" "''frobnicate''"] n
    help_without_command_usage_error_for_unknown [OF l, of example_world "[]" "[]" None
      "[''x'']" "''frobnicate''"] l
  show ?thesis by simp
qed

section \<open>What each operation leaves alone\<close>

lemma fold_print:
  "fold (\<lambda>r. print (f r)) rs w = w\<lparr>stdout := stdout w @ map (\<lambda>r. Line (f r)) rs\<rparr>"
  by (induction rs arbitrary: w) (simp_all add: print_def)

lemma print_tasks_stdout_only: "\<exists>ls. snd (print_tasks rs w) = w\<lparr>stdout := stdout w @ ls\<rparr>"
proof (induction rs arbitrary: w)
  case Nil
  show ?case by (rule exI [of _ "[]"]) simp
next
  case (Cons r rs)
  show ?case
  proof (cases "date_fromisoformat (task_expires r)")
    case None
    then show ?thesis by (intro exI [of _ "[]"]) simp
  next
    case (Some d)
    let ?l = "task_line r (if date_less d (clock_today w) then ''EXPIRED'' else [])"
    from Cons.IH [of "print ?l w"] obtain ls where
      "snd (print_tasks rs (print ?l w)) = (print ?l w)\<lparr>stdout := stdout (print ?l w) @ ls\<rparr>"
      by blast
    with Some show ?thesis
      by (intro exI [of _ "Line ?l # ls"]) (simp add: print_def)
  qed
qed

lemma os_mkdir_files_only: "os_mkdir p w = Inr w' \<Longrightarrow> \<exists>f. w' = w\<lparr>files := f\<rparr>"
  by (auto simp: os_mkdir_def split: sum.splits option.splits)

lemma mkdir_exist_ok_files_only: "\<exists>f. snd (mkdir_exist_ok p w) = w\<lparr>files := f\<rparr>"
proof (cases "os_mkdir p w")
  case (Inl e)
  then show ?thesis
    by (intro exI [of _ "files w"]) (simp add: mkdir_exist_ok_def)
next
  case (Inr w')
  with os_mkdir_files_only [OF Inr] show ?thesis
    by (auto simp: mkdir_exist_ok_def)
qed

lemma path_mkdir_files_only: "\<exists>f. snd (path_mkdir p w) = w\<lparr>files := f\<rparr>"
proof (induction p w rule: path_mkdir.induct)
  case (1 p w)
  show ?case
  proof (cases "os_mkdir p w")
    case (Inr w')
    with os_mkdir_files_only [OF Inr] show ?thesis
      by (auto simp: path_mkdir.simps [of p w])
  next
    case (Inl e)
    show ?thesis
    proof (cases "e = FileNotFoundError \<and> parent p \<noteq> p")
      case False
      with Inl show ?thesis
        by (intro exI [of _ "files w"]) (auto simp: path_mkdir.simps [of p w])
    next
      case True
      with "1.IH" [OF Inl] obtain f where f: "snd (path_mkdir (parent p) w) = w\<lparr>files := f\<rparr>"
        by blast
      obtain r w1 where rw: "path_mkdir (parent p) w = (r, w1)"
        by (cases "path_mkdir (parent p) w")
      with f have w1: "w1 = w\<lparr>files := f\<rparr>" by simp
      from mkdir_exist_ok_files_only [of p w1] obtain g where
        "snd (mkdir_exist_ok p w1) = w1\<lparr>files := g\<rparr>" by blast
      with w1 have "snd (mkdir_exist_ok p w1) = w\<lparr>files := g\<rparr>" by simp
      with Inl True rw w1 show ?thesis
        by (cases r) (auto simp: path_mkdir.simps [of p w])
    qed
  qed
qed

lemma write_file_files_only: "write_file p b w = Inr w' \<Longrightarrow> \<exists>f. w' = w\<lparr>files := f\<rparr>"
  by (auto simp: write_file_def split: sum.splits option.splits node.splits if_splits)

lemma os_chmod_files_only: "os_chmod p m w = Inr w' \<Longrightarrow> \<exists>f. w' = w\<lparr>files := f\<rparr>"
  by (auto simp: os_chmod_def split: sum.splits option.splits node.splits if_splits
      intro: exI [of _ "files w"])

lemma shutil_copy_files_only: "\<exists>f. snd (shutil_copy src dst w) = w\<lparr>files := f\<rparr>"
proof -
  have same: "\<exists>f. w = w\<lparr>files := f\<rparr>"
    by (rule exI [of _ "files w"]) simp
  let ?d = "copy_target src dst w"
  show ?thesis
  proof (cases "samefile src ?d w")
    case True
    with same show ?thesis by (simp add: shutil_copy_def Let_def)
  next
    case False
    show ?thesis
    proof (cases "read_file src w")
      case (Inl e)
      with False same show ?thesis by (simp add: shutil_copy_def Let_def)
    next
      case (Inr bm)
      obtain b m where bm: "bm = (b, m)" by (cases bm)
      show ?thesis
      proof (cases "write_file ?d b w")
        case (Inl e)
        with False Inr bm same show ?thesis by (simp add: shutil_copy_def Let_def)
      next
        case w1: (Inr w1)
        from write_file_files_only [OF w1] obtain f where f: "w1 = w\<lparr>files := f\<rparr>" by blast
        show ?thesis
        proof (cases "os_chmod ?d m w1")
          case (Inl e)
          with False Inr bm w1 f show ?thesis by (auto simp: shutil_copy_def Let_def)
        next
          case w2: (Inr w2)
          from os_chmod_files_only [OF w2] f obtain g where "w2 = w\<lparr>files := g\<rparr>" by auto
          with False Inr bm w1 w2 show ?thesis by (auto simp: shutil_copy_def Let_def)
        qed
      qed
    qed
  qed
qed














lemma collect_events_uuid_only: "\<exists>k. snd (collect_events rs cal w) = w\<lparr>uuid_next := k\<rparr>"
proof (induction rs arbitrary: cal w)
  case Nil
  show ?case by (rule exI [of _ "uuid_next w"]) simp
next
  case (Cons r rs)
  let ?w1 = "w\<lparr>uuid_next := Suc (uuid_next w)\<rparr>"
  show ?case
  proof (cases "fromisoformat (event_time r)")
    case None
    then show ?thesis
      by (intro exI [of _ "Suc (uuid_next w)"]) (simp add: Let_def)
  next
    case (Some dt)
    from Cons.IH [of "events_add cal \<lparr>cal_uid = uuid4 w (uuid_next w), cal_name = event_name r,
      cal_begin = dt\<rparr>" ?w1]
    obtain k where "snd (collect_events rs (events_add cal \<lparr>cal_uid = uuid4 w (uuid_next w),
      cal_name = event_name r, cal_begin = dt\<rparr>) ?w1) = ?w1\<lparr>uuid_next := k\<rparr>"
      by blast
    with Some show ?thesis
      by (intro exI [of _ k]) (simp add: Let_def)
  qed
qed

lemma serialize_error: "serialize cal = Inl e \<Longrightarrow> e = OverflowError"
proof (induction cal)
  case Nil
  then show ?case by simp
next
  case (Cons c cal)
  have "dtstart_text t = Inl x \<Longrightarrow> x = OverflowError" for t x
    by (auto simp: dtstart_text_def astimezone_utc_def Let_def
        split: option.splits sum.splits if_splits)
  with Cons show ?case
    by (auto simp: serialize_event_def split: sum.splits)
qed

lemma generate_calendar_effect:
  assumes "generate_calendar w = (r, w')"
  shows "regenerations w' = Suc (regenerations w) \<and> event_rows w' = event_rows w \<and>
         (r = Returned \<longrightarrow> calendar_writes w' = Suc (calendar_writes w) \<and>
            (\<exists>vs. calendar_ics w' = Some (Calendar_file vs))) \<and>
         (r \<noteq> Returned \<longrightarrow>
            calendar_writes w' = calendar_writes w \<and> calendar_ics w' = calendar_ics w \<or>
            r = Raised OverflowError \<and> calendar_writes w' = Suc (calendar_writes w) \<and>
            calendar_ics w' = Some Empty_file)"
proof (cases "events_table (connect w)")
  case None
  with assms show ?thesis
    by (auto simp: generate_calendar_def Let_def connect_def event_rows_def)
next
  case (Some t)
  let ?w1 = "w\<lparr>regenerations := Suc (regenerations w), db_file := Some (connect w)\<rparr>"
  from collect_events_uuid_only [of "rows t" "[]" ?w1] obtain k where
    k: "snd (collect_events (rows t) [] ?w1) = ?w1\<lparr>uuid_next := k\<rparr>" by blast
  obtain c w2 where cw: "collect_events (rows t) [] ?w1 = (c, w2)"
    by (cases "collect_events (rows t) [] ?w1")
  with k have w2: "w2 = ?w1\<lparr>uuid_next := k\<rparr>" by simp
  have c1: "connect (w\<lparr>regenerations := Suc (regenerations w)\<rparr>) = connect w"
    by (simp add: connect_def)
  show ?thesis
  proof (cases c)
    case (Inl e)
    with assms Some cw show ?thesis
      by (auto simp: generate_calendar_def Let_def c1 w2 event_rows_def connect_def)
  next
    case (Inr cal)
    show ?thesis
    proof (cases "serialize cal")
      case e: (Inl e)
      from serialize_error [OF e] have "e = OverflowError" .
      with assms Some cw Inr e show ?thesis
        by (auto simp: generate_calendar_def Let_def c1 w2 event_rows_def connect_def
            split: if_splits)
    next
      case vs: (Inr vs)
      with assms Some cw Inr show ?thesis
        by (auto simp: generate_calendar_def Let_def c1 w2 event_rows_def connect_def
            split: if_splits)
    qed
  qed
qed



section \<open>When the calendar is regenerated\<close>






section \<open>The calendar file and the event rows\<close>

lemma collect_events_all:
  assumes "collect_events rs cal w = (Inr cal', w')"
    and "distinct (map cal_uid cal @ map (uuid4 w) [uuid_next w ..< uuid_next w + length rs])"
  shows "map (\<lambda>e. (cal_name e, Some (cal_begin e))) cal' =
           map (\<lambda>e. (cal_name e, Some (cal_begin e))) cal @
           map (\<lambda>r. (event_name r, fromisoformat (event_time r))) rs \<and>
         map cal_uid cal' =
           map cal_uid cal @ map (uuid4 w) [uuid_next w ..< uuid_next w + length rs]"
  using assms
proof (induction rs arbitrary: cal w)
  case Nil
  then show ?case by simp
next
  case (Cons r rs)
  let ?k = "uuid_next w"
  let ?w1 = "w\<lparr>uuid_next := Suc ?k\<rparr>"
  have u: "[?k ..< ?k + length (r # rs)] = ?k # [Suc ?k ..< Suc ?k + length rs]"
    using upt_conv_Cons [of ?k "?k + Suc (length rs)"] by (simp del: upt_Suc)
  from Cons.prems(2) have d0: "distinct (map cal_uid cal @
      map (uuid4 w) (?k # [Suc ?k ..< Suc ?k + length rs]))"
    unfolding u .
  from Cons.prems(1) obtain dt where dt: "fromisoformat (event_time r) = Some dt"
    by (cases "fromisoformat (event_time r)") (auto simp: Let_def)
  let ?e = "\<lparr>cal_uid = uuid4 w ?k, cal_name = event_name r, cal_begin = dt\<rparr>"
  from d0 have fresh: "uuid4 w ?k \<notin> set (map cal_uid cal)"
    by (auto simp del: upt_Suc)
  then have add: "events_add cal ?e = cal @ [?e]"
    by (simp add: events_add_def)
  from Cons.prems(1) dt add have c: "collect_events rs (cal @ [?e]) ?w1 = (Inr cal', w')"
    by (simp add: Let_def)
  from d0 have d: "distinct (map cal_uid (cal @ [?e]) @
      map (uuid4 ?w1) [uuid_next ?w1 ..< uuid_next ?w1 + length rs])"
    by (simp del: upt_Suc)
  from Cons.IH [OF c d] have
    "map (\<lambda>e. (cal_name e, Some (cal_begin e))) cal' =
       map (\<lambda>e. (cal_name e, Some (cal_begin e))) (cal @ [?e]) @
       map (\<lambda>r. (event_name r, fromisoformat (event_time r))) rs"
    and "map cal_uid cal' =
       map cal_uid (cal @ [?e]) @ map (uuid4 w) [Suc ?k ..< Suc ?k + length rs]"
    by (simp_all del: upt_Suc)
  with dt show ?case
    unfolding u by (simp del: upt_Suc)
qed

lemma serialize_all:
  "serialize cal = Inr vs \<Longrightarrow>
     map (\<lambda>v. (ev_summary v, Some (ev_dtstart v))) vs =
       map (\<lambda>e. (summary_of (cal_name e), entry_start (Some (cal_begin e)))) cal \<and>
     map ev_uid vs = map cal_uid cal"
proof (induction cal arbitrary: vs)
  case Nil
  then show ?case by simp
next
  case (Cons e cal)
  from Cons.prems obtain v vs' where v: "serialize_event e = Inr v"
    and vs': "serialize cal = Inr vs'" and vs: "vs = v # vs'"
    by (auto split: sum.splits)
  from v have "ev_summary v = summary_of (cal_name e)"
    "entry_start (Some (cal_begin e)) = Some (ev_dtstart v)" "ev_uid v = cal_uid e"
    by (auto simp: serialize_event_def entry_start_def split: sum.splits)
  with Cons.IH [OF vs'] vs show ?case by simp
qed

text \<open>
  Claim C1, as stated, fails in the times: an entry of the file does not hold the time of
  its row but that time in UTC and in whole seconds.  Two events entered as
  \<open>2024-01-01T09:00:00.250000\<close> and \<open>2024-01-01T09:00:00.750000\<close> give two rows with
  different times, the second not before or at the first, and two entries with one and
  the same \<open>DTSTART\<close>: no pairing of entries and rows keeps the times.
\<close>

theorem calendar_whole_seconds_counterexample:
  "fst (add_event ''Standup'' ''2024-01-01T09:00:00.750000'' fraction_world) = Returned \<and>
   map (\<lambda>r. (event_name r, event_time r))
     (event_rows (snd (add_event ''Standup'' ''2024-01-01T09:00:00.750000'' fraction_world))) =
     [(''Standup'', ''2024-01-01T09:00:00.250000''),
      (''Standup'', ''2024-01-01T09:00:00.750000'')] \<and>
   Option.bind (fromisoformat ''2024-01-01T09:00:00.750000'')
     (\<lambda>late. Option.bind (fromisoformat ''2024-01-01T09:00:00.250000'')
        (\<lambda>early. datetime_le late early)) = Some False \<and>
   calendar_ics (snd (add_event ''Standup'' ''2024-01-01T09:00:00.750000'' fraction_world)) =
     Some (Calendar_file
       [\<lparr>ev_uid = ''1'', ev_summary = Some ''Standup'', ev_dtstart = ''20240101T090000Z''\<rparr>,
        \<lparr>ev_uid = ''2'', ev_summary = Some ''Standup'', ev_dtstart = ''20240101T090000Z''\<rparr>])"
  by code_simp

text \<open>
  Claim C1, amended.  When \<open>add_event\<close> returns normally, the calendar file holds exactly
  one entry per row of the events table: the same number of entries, and the same
  collection of (name, start) pairs, counted with multiplicity, where the start that
  belongs to a row is \<open>entry_start\<close> of the date-time its text denotes: that date-time as
  an instant in UTC cut to whole seconds, a time without offset being read as UTC.  An
  empty name gives an entry without \<open>SUMMARY\<close>.  Rows that agree in name and time give
  separate entries, because the calendar's set tells events apart by their uid and not by
  their content.  The uids drawn during the regeneration are taken to be pairwise
  different, as the uid generator promises.
\<close>

theorem calendar_in_bijection_with_events:
  assumes "add_event n s w = (Returned, w')"
    and "distinct (map (uuid4 w) [uuid_next w ..< uuid_next w + length (event_rows w')])"
  shows "\<exists>cal. calendar_ics w' = Some (Calendar_file cal) \<and>
           length cal = length (event_rows w') \<and>
           mset (map (\<lambda>e. (ev_summary e, Some (ev_dtstart e))) cal) =
           mset (map (\<lambda>r. (summary_of (event_name r), entry_start (fromisoformat (event_time r))))
                  (event_rows w')) \<and>
           distinct (map ev_uid cal)"
proof -
  from assms(1) obtain dt where dt: "fromisoformat s = Some dt"
    by (cases "fromisoformat s") (auto simp: add_event_def)
  from assms(1) dt obtain t where t: "events_table (connect w) = Some t"
    by (cases "events_table (connect w)") (auto simp: add_event_def Let_def)
  let ?t1 = "insert_row (\<lambda>i. \<lparr>event_id = i, event_name = n, event_time = isoformat dt\<rparr>) t"
  let ?w1 = "w\<lparr>db_file := Some ((connect w)\<lparr>events_table := Some ?t1\<rparr>)\<rparr>"
  let ?w2 = "?w1\<lparr>regenerations := Suc (regenerations ?w1), db_file := Some (connect ?w1)\<rparr>"
  from assms(1) dt t have g: "generate_calendar ?w1 = (Returned, w')"
    by (simp add: add_event_def Let_def)
  have c1: "connect ?w1 = (connect w)\<lparr>events_table := Some ?t1\<rparr>"
    by (simp add: connect_def)
  obtain c w3 where cw: "collect_events (rows ?t1) [] ?w2 = (c, w3)"
    by (cases "collect_events (rows ?t1) [] ?w2")
  from g cw c1 obtain ev where ev: "c = Inr ev"
    by (cases c) (auto simp: generate_calendar_def Let_def connect_def split: if_splits)
  from g cw c1 ev obtain cal where ser: "serialize ev = Inr cal"
    and w': "w' = w3\<lparr>calendar_ics := Some (Calendar_file cal),
                     calendar_writes := Suc (calendar_writes w3)\<rparr>"
    by (cases "serialize ev") (auto simp: generate_calendar_def Let_def connect_def split: if_splits)
  from collect_events_uuid_only [of "rows ?t1" "[]" ?w2] cw obtain k where
    w3: "w3 = ?w2\<lparr>uuid_next := k\<rparr>" by auto
  have rows': "event_rows w' = rows ?t1"
    by (simp add: w' w3 event_rows_def connect_def)
  from assms(2) rows' have d: "distinct (map cal_uid [] @
      map (uuid4 ?w2) [uuid_next ?w2 ..< uuid_next ?w2 + length (rows ?t1)])"
    by simp
  from collect_events_all [OF cw [unfolded ev] d]
  have m: "map (\<lambda>e. (cal_name e, Some (cal_begin e))) ev =
           map (\<lambda>r. (event_name r, fromisoformat (event_time r))) (rows ?t1)"
    and u: "map cal_uid ev = map (uuid4 w) [uuid_next w ..< uuid_next w + length (rows ?t1)]"
    by simp_all
  from m have "map (\<lambda>p. (summary_of (fst p), entry_start (snd p)))
        (map (\<lambda>e. (cal_name e, Some (cal_begin e))) ev) =
      map (\<lambda>p. (summary_of (fst p), entry_start (snd p)))
        (map (\<lambda>r. (event_name r, fromisoformat (event_time r))) (rows ?t1))"
    by (rule arg_cong)
  then have m2: "map (\<lambda>e. (summary_of (cal_name e), entry_start (Some (cal_begin e)))) ev =
      map (\<lambda>r. (summary_of (event_name r), entry_start (fromisoformat (event_time r)))) (rows ?t1)"
    by (simp add: comp_def)
  from serialize_all [OF ser] m2 u
  have m3: "map (\<lambda>v. (ev_summary v, Some (ev_dtstart v))) cal =
      map (\<lambda>r. (summary_of (event_name r), entry_start (fromisoformat (event_time r)))) (rows ?t1)"
    and u3: "map ev_uid cal = map (uuid4 w) [uuid_next w ..< uuid_next w + length (rows ?t1)]"
    by simp_all
  from m3 have "length (map (\<lambda>v. (ev_summary v, Some (ev_dtstart v))) cal) =
      length (map (\<lambda>r. (summary_of (event_name r), entry_start (fromisoformat (event_time r))))
        (rows ?t1))"
    by (rule arg_cong)
  then have len: "length cal = length (rows ?t1)" by simp
  from u3 assms(2) rows' have dist: "distinct (map ev_uid cal)" by simp
  have ci: "calendar_ics w' = Some (Calendar_file cal)" by (simp add: w')
  have ms: "mset (map (\<lambda>v. (ev_summary v, Some (ev_dtstart v))) cal) =
      mset (map (\<lambda>r. (summary_of (event_name r), entry_start (fromisoformat (event_time r))))
        (event_rows w'))"
    by (simp only: m3 rows')
  from len rows' have "length cal = length (event_rows w')" by simp
  with ci ms dist show ?thesis by blast
qed

theorem calendar_in_bijection_with_events_witness:
  "fst (add_event ''Retro'' ''2024-01-01 15:00'' retro_world) = Returned \<and>
   distinct (map (uuid4 retro_world) [uuid_next retro_world ..< uuid_next retro_world + 2]) \<and>
   map (\<lambda>r. (event_name r, event_time r))
     (event_rows (snd (add_event ''Retro'' ''2024-01-01 15:00'' retro_world))) =
     [(''Retro'', ''2024-01-01T15:00:00''), (''Retro'', ''2024-01-01T15:00:00'')] \<and>
   entry_start (fromisoformat ''2024-01-01T15:00:00'') = Some ''20240101T150000Z'' \<and>
   (\<exists>cal. calendar_ics (snd (add_event ''Retro'' ''2024-01-01 15:00'' retro_world)) =
        Some (Calendar_file cal) \<and>
      length cal = 2 \<and>
      mset (map (\<lambda>e. (ev_summary e, Some (ev_dtstart e))) cal) =
      mset (map (\<lambda>r. (summary_of (event_name r), entry_start (fromisoformat (event_time r))))
        (event_rows (snd (add_event ''Retro'' ''2024-01-01 15:00'' retro_world)))) \<and>
      distinct (map ev_uid cal))"
proof -
  let ?r = "add_event ''Retro'' ''2024-01-01 15:00'' retro_world"
  have f: "fst ?r = Returned"
    by code_simp
  then have h1: "?r = (Returned, snd ?r)"
    by (metis prod.collapse)
  have l: "length (event_rows (snd ?r)) = 2"
    by code_simp
  have d: "distinct (map (uuid4 retro_world) [uuid_next retro_world ..< uuid_next retro_world + 2])"
    by code_simp
  then have h2: "distinct (map (uuid4 retro_world)
      [uuid_next retro_world ..< uuid_next retro_world + length (event_rows (snd ?r))])"
    by (simp only: l)
  have e: "map (\<lambda>r. (event_name r, event_time r)) (event_rows (snd ?r)) =
     [(''Retro'', ''2024-01-01T15:00:00''), (''Retro'', ''2024-01-01T15:00:00'')]"
    by code_simp
  have x: "entry_start (fromisoformat ''2024-01-01T15:00:00'') = Some ''20240101T150000Z''"
    by code_simp
  from calendar_in_bijection_with_events [OF h1 h2] have
    "\<exists>cal. calendar_ics (snd ?r) = Some (Calendar_file cal) \<and> length cal = 2 \<and>
      mset (map (\<lambda>e. (ev_summary e, Some (ev_dtstart e))) cal) =
      mset (map (\<lambda>r. (summary_of (event_name r), entry_start (fromisoformat (event_time r))))
        (event_rows (snd ?r))) \<and>
      distinct (map ev_uid cal)"
    by (simp only: l)
  with f d e x show ?thesis by blast
qed

section \<open>The order of the stored time texts\<close>

lemma append_less_same_length:
  "length u = length v \<Longrightarrow> (u @ x < v @ y) = (u < v \<or> (u = v \<and> x < y))"
  for u v x y :: "'a::linorder list"
  by (induction u v rule: list_induct2) auto

lemma append_le_same_length:
  "length u = length v \<Longrightarrow> (u @ x \<le> v @ y) = (u < v \<or> (u = v \<and> x \<le> y))"
  for u v x y :: "'a::linorder list"
  by (induction u v rule: list_induct2) auto

lemma digit_char_less: "a < 10 \<Longrightarrow> b < 10 \<Longrightarrow> (digit_char a < digit_char b) = (a < b)"
  by (simp add: less_char_def of_char_digit_char)

lemma digit_char_eq: "a < 10 \<Longrightarrow> b < 10 \<Longrightarrow> (digit_char a = digit_char b) = (a = b)"
  using digit_val_digit_char by metis

lemma zpad_eq_iff: "a < 10 ^ w \<Longrightarrow> b < 10 ^ w \<Longrightarrow> (zpad w a = zpad w b) = (a = b)"
  using digits_val_zpad by metis

lemma less_by_digits:
  "(a < b) = (a div 10 < b div 10 \<or> (a div 10 = b div 10 \<and> a mod 10 < b mod 10))"
  for a b :: nat
proof -
  have a: "a = 10 * (a div 10) + a mod 10" and b: "b = 10 * (b div 10) + b mod 10"
    by simp_all
  have ra: "a mod 10 < 10" and rb: "b mod 10 < 10"
    by simp_all
  obtain qa r qb s where d: "qa = a div 10" "r = a mod 10" "qb = b div 10" "s = b mod 10"
    by simp
  from a b ra rb d have "a = 10 * qa + r" "b = 10 * qb + s" "r < 10" "s < 10"
    by simp_all
  then have "(a < b) = (qa < qb \<or> (qa = qb \<and> r < s))"
    by arith
  with d show ?thesis by simp
qed

lemma zpad_less_iff: "a < 10 ^ w \<Longrightarrow> b < 10 ^ w \<Longrightarrow> (zpad w a < zpad w b) = (a < b)"
proof (induction w arbitrary: a b)
  case 0
  then show ?case by simp
next
  case (Suc w)
  from Suc.prems have a: "a div 10 < 10 ^ w" and b: "b div 10 < 10 ^ w"
    by (simp_all add: less_mult_imp_div_less mult.commute)
  have "(zpad (Suc w) a < zpad (Suc w) b) =
      (zpad w (a div 10) < zpad w (b div 10) \<or>
       (zpad w (a div 10) = zpad w (b div 10) \<and> digit_char (a mod 10) < digit_char (b mod 10)))"
    by (simp add: append_less_same_length)
  also have "\<dots> = (a div 10 < b div 10 \<or> (a div 10 = b div 10 \<and> a mod 10 < b mod 10))"
    by (simp add: Suc.IH [OF a b] zpad_eq_iff [OF a b] digit_char_less)
  also have "\<dots> = (a < b)"
    by (rule less_by_digits [symmetric])
  finally show ?case .
qed

lemma fraction_le_iff:
  assumes "a < 10 ^ 6" and "b < 10 ^ 6"
  shows "((if a \<noteq> 0 then ''.'' @ zpad 6 a else []) \<le> (if b \<noteq> 0 then ''.'' @ zpad 6 b else [])) =
         (a \<le> b)"
proof -
  have "(zpad 6 a \<le> zpad 6 b) = (a \<le> b)"
    using zpad_less_iff [OF assms] zpad_eq_iff [OF assms] by (auto simp: le_less)
  then show ?thesis
    by (simp del: zpad.simps)
qed

lemma format_offset_head:
  "format_offset tz = [] \<or> hd (format_offset tz) = CHR ''+'' \<or> hd (format_offset tz) = CHR ''-''"
  by (cases tz) (simp_all add: format_offset_def Let_def)

lemma fraction_offset_le_iff:
  assumes "a < 10 ^ 6" and "b < 10 ^ 6"
    and "off = [] \<or> hd off = CHR ''+'' \<or> hd off = CHR ''-''"
  shows "((if a \<noteq> 0 then ''.'' @ zpad 6 a else []) @ off \<le>
          (if b \<noteq> 0 then ''.'' @ zpad 6 b else []) @ off) = (a \<le> b)"
proof -
  have "(zpad 6 a @ off \<le> zpad 6 b @ off) =
      (zpad 6 a < zpad 6 b \<or> (zpad 6 a = zpad 6 b \<and> off \<le> off))"
    by (rule append_le_same_length) simp
  also have "\<dots> = (a < b \<or> a = b)"
    by (simp only: zpad_less_iff [OF assms(1,2)] zpad_eq_iff [OF assms(1,2)]) simp
  also have "\<dots> = (a \<le> b)"
    by auto
  finally have z: "(zpad 6 a @ off \<le> zpad 6 b @ off) = (a \<le> b)" .
  have lo: "off \<le> CHR ''.'' # x" for x
    using assms(3) by (cases off) (auto simp: less_char_def)
  have hi: "\<not> CHR ''.'' # x \<le> off" for x
    using assms(3) by (cases off) (auto simp: less_char_def)
  show ?thesis
    using z lo hi by (simp del: zpad.simps)
qed

lemma isoformat_le_same_offset:
  assumes "valid_datetime a" and "valid_datetime b" and "tzinfo a = tzinfo b"
  shows "(isoformat a \<le> isoformat b) = (base_fields a \<le> base_fields b)"
proof -
  note A = valid_datetime_bounds [OF assms(1)]
  note B = valid_datetime_bounds [OF assms(2)]
  note L = zpad_less_iff [OF A(1) B(1)] zpad_less_iff [OF A(2) B(2)] zpad_less_iff [OF A(3) B(3)]
    zpad_less_iff [OF A(4) B(4)] zpad_less_iff [OF A(5) B(5)] zpad_less_iff [OF A(6) B(6)]
  note E = zpad_eq_iff [OF A(1) B(1)] zpad_eq_iff [OF A(2) B(2)] zpad_eq_iff [OF A(3) B(3)]
    zpad_eq_iff [OF A(4) B(4)] zpad_eq_iff [OF A(5) B(5)] zpad_eq_iff [OF A(6) B(6)]
  define off where "off = format_offset (tzinfo b)"
  define fa where "fa = (if microsecond a \<noteq> 0 then ''.'' @ zpad 6 (microsecond a) else []) @ off"
  define fb where "fb = (if microsecond b \<noteq> 0 then ''.'' @ zpad 6 (microsecond b) else []) @ off"
  have "(fa \<le> fb) = (microsecond a \<le> microsecond b)"
    unfolding fa_def fb_def
    by (rule fraction_offset_le_iff [OF A(7) B(7)]) (simp add: off_def format_offset_head)
  then have F: "(fa \<le> fb) = (microsecond a < microsecond b \<or> microsecond a = microsecond b)"
    by (simp add: le_less)
  have ia: "isoformat a = zpad 4 (year (date_of a)) @ ''-'' @ zpad 2 (month (date_of a)) @ ''-'' @
      zpad 2 (day (date_of a)) @ ''T'' @ zpad 2 (hour a) @ '':'' @ zpad 2 (minute a) @ '':'' @
      zpad 2 (second a) @ fa"
    by (simp add: isoformat_def format_time_def date_isoformat_def assms(3) off_def
        fa_def del: zpad.simps)
  have ib: "isoformat b = zpad 4 (year (date_of b)) @ ''-'' @ zpad 2 (month (date_of b)) @ ''-'' @
      zpad 2 (day (date_of b)) @ ''T'' @ zpad 2 (hour b) @ '':'' @ zpad 2 (minute b) @ '':'' @
      zpad 2 (second b) @ fb"
    by (simp add: isoformat_def format_time_def date_isoformat_def off_def
        fb_def del: zpad.simps)
  show ?thesis
    unfolding ia ib base_fields_def
    by (simp add: append_le_same_length L E F del: zpad.simps)
qed

section \<open>The order of \<open>list_events\<close>\<close>

text \<open>
  Claim C3, as stated, fails: \<open>ORDER BY time\<close> compares the stored texts, and with
  differing UTC offsets the order of the texts is not the order of the instants.  After
  \<open>add-event Tokyo 2024-01-01T10:00:00+09:00\<close> and
  \<open>add-event London 2024-01-01T09:00:00+00:00\<close> the listing prints London first, although
  London is not before or at Tokyo (Tokyo is eight hours earlier).
\<close>

theorem list_events_text_order_counterexample:
  "stdout (snd (list_events offsets_world)) =
     [Line ''2: London at 2024-01-01T09:00:00+00:00'',
      Line ''1: Tokyo at 2024-01-01T10:00:00+09:00''] \<and>
   Option.bind (fromisoformat ''2024-01-01T09:00:00+00:00'')
     (\<lambda>london. Option.bind (fromisoformat ''2024-01-01T10:00:00+09:00'')
        (\<lambda>tokyo. datetime_le london tokyo)) = Some False"
  by code_simp

text \<open>
  Claim C3, amended.  When the stored times are the texts of date-times that all carry
  the same UTC offset \<open>tz\<close>, or all carry none (\<open>moment r\<close> is the date-time of row \<open>r\<close>; any
  precision of the input gives such a text), \<open>list_events\<close> returns normally, prints every
  event once, and the date-times of the printed rows ascend in the order of Python's
  date-time comparison.
\<close>

theorem list_events_chronological_with_common_offset:
  assumes "events_table (connect w) = Some t"
    and "\<forall>r \<in> set (rows t). valid_datetime (moment r) \<and> tzinfo (moment r) = tz \<and>
           event_time r = isoformat (moment r)"
  shows "list_events w =
           (Returned,
            w\<lparr>db_file := Some (connect w),
              stdout := stdout w @ map (\<lambda>r. Line (event_line r)) (sort_key event_time (rows t))\<rparr>) \<and>
         mset (sort_key event_time (rows t)) = mset (rows t) \<and>
         sorted_wrt (\<lambda>a b. datetime_le a b = Some True)
           (map moment (sort_key event_time (rows t)))"
proof -
  let ?L = "sort_key event_time (rows t)"
  have "sorted (map event_time ?L)"
    by (rule sorted_sort_key)
  then have s: "sorted_wrt (\<lambda>a b. event_time a \<le> event_time b) ?L"
    by (simp add: sorted_wrt_map)
  have "sorted_wrt (\<lambda>a b. datetime_le (moment a) (moment b) = Some True) ?L"
  proof (rule sorted_wrt_mono_rel [OF _ s])
    fix a b
    assume a: "a \<in> set ?L" and b: "b \<in> set ?L" and le: "event_time a \<le> event_time b"
    from a b assms(2) have va: "valid_datetime (moment a)" "tzinfo (moment a) = tz"
        "event_time a = isoformat (moment a)"
      and vb: "valid_datetime (moment b)" "tzinfo (moment b) = tz"
        "event_time b = isoformat (moment b)"
      by simp_all
    from va(2) vb(2) have same: "tzinfo (moment a) = tzinfo (moment b)" by simp
    from le isoformat_le_same_offset [OF va(1) vb(1) same] va(3) vb(3)
    have "base_fields (moment a) \<le> base_fields (moment b)" by simp
    with same show "datetime_le (moment a) (moment b) = Some True"
      by (simp add: datetime_le_def)
  qed
  then have c: "sorted_wrt (\<lambda>a b. datetime_le a b = Some True) (map moment ?L)"
    by (simp add: sorted_wrt_map)
  from assms(1) have "list_events w =
      (Returned, w\<lparr>db_file := Some (connect w),
         stdout := stdout w @ map (\<lambda>r. Line (event_line r)) ?L\<rparr>)"
    by (simp add: list_events_def Let_def fold_print)
  with c show ?thesis by simp
qed

theorem list_events_chronological_with_common_offset_witness:
  "map (\<lambda>r. (event_id r, event_name r, event_time r)) (event_rows standup_world) =
     [(1, ''Standup'', ''2024-01-02T09:00:00''), (2, ''Retro'', ''2024-01-01T15:00:00'')] \<and>
   list_all (\<lambda>r. valid_datetime (standup_moment r) \<and> tzinfo (standup_moment r) = None \<and>
               event_time r = isoformat (standup_moment r)) (event_rows standup_world) \<and>
   fst (list_events standup_world) = Returned \<and>
   stdout (snd (list_events standup_world)) =
     [Line ''2: Retro at 2024-01-01T15:00:00'', Line ''1: Standup at 2024-01-02T09:00:00''] \<and>
   sorted_wrt (\<lambda>a b. datetime_le a b = Some True)
     (map standup_moment (sort_key event_time (event_rows standup_world))) \<and>
   map (\<lambda>r. (event_id r, event_name r, event_time r)) (event_rows osaka_world) =
     [(1, ''Osaka'', ''2024-01-01T10:00:00.500000+09:00''),
      (2, ''Kyoto'', ''2024-01-01T10:00:00+09:00'')] \<and>
   list_all (\<lambda>r. valid_datetime (osaka_moment r) \<and> tzinfo (osaka_moment r) = Some 32400000000 \<and>
               event_time r = isoformat (osaka_moment r)) (event_rows osaka_world) \<and>
   stdout (snd (list_events osaka_world)) =
     [Line ''2: Kyoto at 2024-01-01T10:00:00+09:00'',
      Line ''1: Osaka at 2024-01-01T10:00:00.500000+09:00''] \<and>
   sorted_wrt (\<lambda>a b. datetime_le a b = Some True)
     (map osaka_moment (sort_key event_time (event_rows osaka_world)))"
proof -
  have r: "map (\<lambda>r. (event_id r, event_name r, event_time r)) (event_rows standup_world) =
     [(1, ''Standup'', ''2024-01-02T09:00:00''), (2, ''Retro'', ''2024-01-01T15:00:00'')]"
    by code_simp
  have t: "events_table (connect standup_world) =
      Some \<lparr>rows = event_rows standup_world, seq = 2\<rparr>"
    by code_simp
  have h: "list_all (\<lambda>r. valid_datetime (standup_moment r) \<and> tzinfo (standup_moment r) = None \<and>
               event_time r = isoformat (standup_moment r)) (event_rows standup_world)"
    by code_simp
  then have h2: "\<forall>r \<in> set (rows \<lparr>rows = event_rows standup_world, seq = 2\<rparr>).
      valid_datetime (standup_moment r) \<and> tzinfo (standup_moment r) = None \<and>
      event_time r = isoformat (standup_moment r)"
    by (simp add: list_all_iff)
  have o: "stdout standup_world @ map (\<lambda>r. Line (event_line r))
      (sort_key event_time (event_rows standup_world)) =
     [Line ''2: Retro at 2024-01-01T15:00:00'', Line ''1: Standup at 2024-01-02T09:00:00'']"
    by code_simp
  have r': "map (\<lambda>r. (event_id r, event_name r, event_time r)) (event_rows osaka_world) =
     [(1, ''Osaka'', ''2024-01-01T10:00:00.500000+09:00''),
      (2, ''Kyoto'', ''2024-01-01T10:00:00+09:00'')]"
    by code_simp
  have t': "events_table (connect osaka_world) = Some \<lparr>rows = event_rows osaka_world, seq = 2\<rparr>"
    by code_simp
  have h': "list_all (\<lambda>r. valid_datetime (osaka_moment r) \<and>
               tzinfo (osaka_moment r) = Some 32400000000 \<and>
               event_time r = isoformat (osaka_moment r)) (event_rows osaka_world)"
    by code_simp
  then have h2': "\<forall>r \<in> set (rows \<lparr>rows = event_rows osaka_world, seq = 2\<rparr>).
      valid_datetime (osaka_moment r) \<and> tzinfo (osaka_moment r) = Some 32400000000 \<and>
      event_time r = isoformat (osaka_moment r)"
    by (simp add: list_all_iff)
  have o': "stdout osaka_world @ map (\<lambda>r. Line (event_line r))
      (sort_key event_time (event_rows osaka_world)) =
     [Line ''2: Kyoto at 2024-01-01T10:00:00+09:00'',
      Line ''1: Osaka at 2024-01-01T10:00:00.500000+09:00'']"
    by code_simp
  from list_events_chronological_with_common_offset [OF t h2]
    list_events_chronological_with_common_offset [OF t' h2'] r h o r' h' o'
  show ?thesis by simp
qed

section \<open>Directories: creating a storage area\<close>

lemma walk_mono:
  assumes "walk fs cur cs = Inr t" and "\<forall>q. fs q = Some Dir \<longrightarrow> fs' q = Some Dir"
  shows "walk fs' cur cs = Inr t"
  using assms(1)
proof (induction cs arbitrary: cur)
  case Nil
  then show ?case by simp
next
  case (Cons c cs)
  from Cons.prems have d: "fs cur = Some Dir"
    by (auto split: option.splits node.splits)
  with assms(2) have d': "fs' cur = Some Dir" by simp
  from Cons.prems d have "walk fs (if c = ''..'' then butlast cur else cur @ [c]) cs = Inr t"
    by simp
  from Cons.IH [OF this] d' show ?case by simp
qed

lemma locate_mono:
  assumes "locate w p = Inr t" and "cwd w' = cwd w"
    and "\<forall>q. files w q = Some Dir \<longrightarrow> files w' q = Some Dir"
  shows "locate w' p = Inr t"
  using walk_mono [OF assms(1) [unfolded locate_def] assms(3)] assms(2)
  by (auto simp: locate_def split: if_splits)


lemma os_mkdir_is_dir:
  assumes "os_mkdir p w = Inr w'"
  shows "is_dir p w'"
proof -
  from assms obtain t where t: "locate w p = Inr t" "files w t = None"
    and w': "w' = w\<lparr>files := (files w)(t \<mapsto> Dir)\<rparr>"
    by (auto simp: os_mkdir_def split: sum.splits option.splits)
  have "locate w' p = Inr t"
    by (rule locate_mono [OF t(1)]) (simp_all add: w')
  then show ?thesis by (simp add: is_dir_def w')
qed

lemma mkdir_exist_ok_is_dir:
  assumes "mkdir_exist_ok p w = (Returned, w')"
  shows "is_dir p w'"
proof (cases "os_mkdir p w")
  case (Inl e)
  with assms show ?thesis
    by (auto simp: mkdir_exist_ok_def split: if_splits)
next
  case (Inr w1)
  with assms os_mkdir_is_dir [OF Inr] show ?thesis
    by (simp add: mkdir_exist_ok_def)
qed

lemma path_mkdir_is_dir:
  "path_mkdir p w = (Returned, w') \<Longrightarrow> is_dir p w'"
proof (induction p w arbitrary: w' rule: path_mkdir.induct)
  case (1 p w)
  show ?case
  proof (cases "os_mkdir p w")
    case (Inr w1)
    with "1.prems" os_mkdir_is_dir [OF Inr] show ?thesis
      by (simp add: path_mkdir.simps [of p w])
  next
    case (Inl e)
    show ?thesis
    proof (cases "e = FileNotFoundError")
      case False
      with Inl "1.prems" show ?thesis
        by (auto simp: path_mkdir.simps [of p w] split: if_splits)
    next
      case True
      with Inl "1.prems" obtain w1 where "mkdir_exist_ok p w1 = (Returned, w')"
        by (auto simp: path_mkdir.simps [of p w] split: if_splits prod.splits outcome.splits)
      then show ?thesis by (rule mkdir_exist_ok_is_dir)
    qed
  qed
qed

lemma is_dir_path_mkdir:
  assumes "is_dir p w"
  shows "path_mkdir p w = (Returned, w)"
proof -
  from assms have "os_mkdir p w = Inl FileExistsError"
    by (auto simp: is_dir_def os_mkdir_def split: sum.splits)
  with assms show ?thesis
    by (simp add: path_mkdir.simps [of p w])
qed

lemma is_dir_print [simp]: "is_dir p (print s w) = is_dir p w"
  by (simp add: is_dir_def locate_def print_def split: sum.splits)

text \<open>
  Claim C6, as stated, fails: \<open>mkdir(parents=True, exist_ok=True)\<close> tolerates an existing
  directory only.  When the name already belongs to a regular file under the content
  root, as \<open>inv.pdf\<close> does after \<open>add-doc Invoice /tmp/inv.pdf\<close>, \<open>add_storage\<close> raises
  \<open>FileExistsError\<close>, the first time and the second.
\<close>

theorem add_storage_blocked_counterexample:
  "fst (add_storage ''inv.pdf'' invoice_world) = Raised FileExistsError \<and>
   fst (add_storage ''inv.pdf'' (snd (add_storage ''inv.pdf'' invoice_world))) =
     Raised FileExistsError"
  by code_simp

text \<open>
  Claim C6, amended.  When a call of \<open>add_storage\<close> has succeeded, the directory exists,
  and a second call with the same name succeeds too and changes nothing but the output:
  creating the directory is idempotent.  The file tree has one node per location, so
  there is exactly one directory of that name.
\<close>

theorem add_storage_twice:
  assumes "add_storage name w = (Returned, w1)"
  shows "add_storage name w1 =
           (Returned, print (''Created storage: '' @ path_str (joinpath STORAGE_DIR name)) w1) \<and>
         is_dir (joinpath STORAGE_DIR name) w1"
proof -
  let ?p = "joinpath STORAGE_DIR name"
  from assms obtain wm where m: "path_mkdir ?p w = (Returned, wm)"
    and w1: "w1 = print (''Created storage: '' @ path_str ?p) wm"
    by (auto simp: add_storage_def Let_def split: prod.splits outcome.splits)
  from path_mkdir_is_dir [OF m] w1 have d: "is_dir ?p w1" by simp
  from is_dir_path_mkdir [OF d] d show ?thesis
    by (simp add: add_storage_def Let_def)
qed

theorem add_storage_twice_witness:
  "fst (add_storage ''finance'' example_world) = Returned \<and>
   add_storage ''finance'' (snd (add_storage ''finance'' example_world)) =
     (Returned, print ''Created storage: storage/finance''
        (snd (add_storage ''finance'' example_world))) \<and>
   is_dir (Path ''storage/finance'') (snd (add_storage ''finance'' example_world)) \<and>
   \<not> is_dir (Path ''storage/finance'') example_world"
proof -
  let ?r = "add_storage ''finance'' example_world"
  have f: "fst ?r = Returned"
    by code_simp
  then have h: "?r = (Returned, snd ?r)"
    by (metis prod.collapse)
  have p: "joinpath STORAGE_DIR ''finance'' = Path ''storage/finance''"
    "path_str (joinpath STORAGE_DIR ''finance'') = ''storage/finance''"
    by code_simp+
  have n: "\<not> is_dir (Path ''storage/finance'') example_world"
    by code_simp
  from add_storage_twice [OF h] f p n show ?thesis
    by simp
qed

section \<open>Documents: failures insert no row\<close>


lemma add_document_cases:
  obtains (mkdir_failed) e f where
      "add_document label file_path storage w = (Raised e, w\<lparr>files := f\<rparr>)"
      "path_mkdir (joinpath STORAGE_DIR (storage_or_empty storage)) w = (Raised e, w\<lparr>files := f\<rparr>)"
  | (copy_failed) e f g where
      "add_document label file_path storage w = (Raised e, w\<lparr>files := g\<rparr>)"
      "path_mkdir (joinpath STORAGE_DIR (storage_or_empty storage)) w = (Returned, w\<lparr>files := f\<rparr>)"
      "shutil_copy (Path file_path) (document_dest storage file_path) (w\<lparr>files := f\<rparr>) =
         (Raised e, w\<lparr>files := g\<rparr>)"
  | (insert_failed) f g where
      "add_document label file_path storage w =
         (Raised OperationalError, w\<lparr>files := g, db_file := Some (connect w)\<rparr>)"
      "path_mkdir (joinpath STORAGE_DIR (storage_or_empty storage)) w = (Returned, w\<lparr>files := f\<rparr>)"
      "shutil_copy (Path file_path) (document_dest storage file_path) (w\<lparr>files := f\<rparr>) =
         (Returned, w\<lparr>files := g\<rparr>)"
      "documents_table (connect w) = None"
  | (stored) f g t where
      "add_document label file_path storage w =
         (Returned,
          print (''Stored document at '' @ path_str (document_dest storage file_path))
            (w\<lparr>files := g,
               db_file := Some ((connect w)\<lparr>documents_table := Some (insert_row
                 (\<lambda>i. \<lparr>doc_id = i, doc_label = label,
                        doc_path = path_str (document_dest storage file_path),
                        doc_storage = storage\<rparr>) t)\<rparr>)\<rparr>))"
      "path_mkdir (joinpath STORAGE_DIR (storage_or_empty storage)) w = (Returned, w\<lparr>files := f\<rparr>)"
      "shutil_copy (Path file_path) (document_dest storage file_path) (w\<lparr>files := f\<rparr>) =
         (Returned, w\<lparr>files := g\<rparr>)"
      "documents_table (connect w) = Some t"
proof -
  let ?sp = "joinpath STORAGE_DIR (storage_or_empty storage)"
  let ?dest = "document_dest storage file_path"
  from path_mkdir_files_only [of ?sp w] obtain f where
    f: "snd (path_mkdir ?sp w) = w\<lparr>files := f\<rparr>" by blast
  obtain r where rw: "path_mkdir ?sp w = (r, w\<lparr>files := f\<rparr>)"
    using f by (cases "path_mkdir ?sp w") simp
  show ?thesis
  proof (cases r)
    case (Raised e)
    with rw have "add_document label file_path storage w = (Raised e, w\<lparr>files := f\<rparr>)"
      by (simp add: add_document_def Let_def)
    with rw Raised show ?thesis by (intro mkdir_failed) simp_all
  next
    case Returned
    from shutil_copy_files_only [of "Path file_path" ?dest "w\<lparr>files := f\<rparr>"] obtain g where
      g: "snd (shutil_copy (Path file_path) ?dest (w\<lparr>files := f\<rparr>)) = w\<lparr>files := g\<rparr>"
      by auto
    obtain r2 where c: "shutil_copy (Path file_path) ?dest (w\<lparr>files := f\<rparr>) = (r2, w\<lparr>files := g\<rparr>)"
      using g by (cases "shutil_copy (Path file_path) ?dest (w\<lparr>files := f\<rparr>)") simp
    have cn: "connect (w\<lparr>files := g\<rparr>) = connect w"
      by (simp add: connect_def)
    show ?thesis
    proof (cases r2)
      case (Raised e)
      with rw Returned c have "add_document label file_path storage w = (Raised e, w\<lparr>files := g\<rparr>)"
        by (simp add: add_document_def Let_def document_dest_def)
      with rw Returned c Raised show ?thesis by (intro copy_failed) simp_all
    next
      case r2: Returned
      show ?thesis
      proof (cases "documents_table (connect w)")
        case None
        with rw Returned c r2 cn have "add_document label file_path storage w =
            (Raised OperationalError, w\<lparr>files := g, db_file := Some (connect w)\<rparr>)"
          by (simp add: add_document_def Let_def document_dest_def)
        with rw Returned c r2 None show ?thesis by (intro insert_failed) simp_all
      next
        case (Some t)
        with rw Returned c r2 cn have "add_document label file_path storage w =
          (Returned,
           print (''Stored document at '' @ path_str ?dest)
             (w\<lparr>files := g,
                db_file := Some ((connect w)\<lparr>documents_table := Some (insert_row
                  (\<lambda>i. \<lparr>doc_id = i, doc_label = label, doc_path = path_str ?dest,
                         doc_storage = storage\<rparr>) t)\<rparr>)\<rparr>))"
          by (simp add: add_document_def Let_def document_dest_def)
        with rw Returned c r2 Some show ?thesis by (intro stored) simp_all
      qed
    qed
  qed
qed







section \<open>Documents: the destination and a second copy\<close>

lemma split_slash_not_Nil [simp]: "split_slash s \<noteq> []"
  by (induction s) (auto split: list.splits)













lemma may_chmod_files [simp]: "may_chmod (w\<lparr>files := f\<rparr>) k = may_chmod w k"
  by (simp add: may_chmod_def)

lemma may_write_files [simp]: "may_write (w\<lparr>files := f\<rparr>) m k = may_write w m k"
  by (simp add: may_write_def)

lemma may_read_files [simp]: "may_read (w\<lparr>files := f\<rparr>) m k = may_read w m k"
  by (simp add: may_read_def)







section \<open>The tasks the program writes\<close>

text \<open>
  Every expiration text in the store was written by \<open>add_task\<close>, so it is the text of a
  valid date: this holds in the empty store and is kept by every run of the program.  In such
  a store the assumption on the rows in the statement about \<open>list_tasks\<close> holds with
  \<open>due_date\<close>, the date the stored text denotes.
\<close>

lemma date_fromisoformat_valid: "date_fromisoformat s = Some d \<Longrightarrow> valid_date d"
  by (auto simp: date_fromisoformat_def split: option.splits prod.splits list.splits if_splits)

lemma stored_date_text_isoformat: "valid_date d \<Longrightarrow> stored_date_text (date_isoformat d)"
  by (simp add: stored_date_text_def date_fromisoformat_isoformat)

lemma stored_date_text_due:
  "stored_date_text (task_expires r) \<Longrightarrow>
     valid_date (due_date r) \<and> task_expires r = date_isoformat (due_date r)"
  by (auto simp: stored_date_text_def due_date_def date_fromisoformat_valid split: option.splits)

lemma task_rows_simps:
  "task_rows (w\<lparr>stdout := x\<rparr>) = task_rows w"
  "task_rows (w\<lparr>files := f\<rparr>) = task_rows w"
  "task_rows (w\<lparr>uuid_next := k\<rparr>) = task_rows w"
  "task_rows (w\<lparr>db_file := Some (connect w)\<rparr>) = task_rows w"
  "task_rows (w\<lparr>db_file := Some ((connect w)\<lparr>notes_table := b\<rparr>)\<rparr>) = task_rows w"
  "task_rows (w\<lparr>db_file := Some ((connect w)\<lparr>events_table := c\<rparr>)\<rparr>) = task_rows w"
  "task_rows (w\<lparr>db_file := Some ((connect w)\<lparr>documents_table := d\<rparr>)\<rparr>) = task_rows w"
  by (simp_all add: task_rows_def connect_def)

lemma generate_calendar_task_rows: "task_rows (snd (generate_calendar w)) = task_rows w"
proof (cases "events_table (connect w)")
  case None
  then show ?thesis
    by (simp add: generate_calendar_def Let_def task_rows_def connect_def)
next
  case (Some t)
  let ?w1 = "w\<lparr>regenerations := Suc (regenerations w), db_file := Some (connect w)\<rparr>"
  from collect_events_uuid_only [of "rows t" "[]" ?w1] obtain k where
    k: "snd (collect_events (rows t) [] ?w1) = ?w1\<lparr>uuid_next := k\<rparr>" by blast
  obtain c w2 where cw: "collect_events (rows t) [] ?w1 = (c, w2)"
    by (cases "collect_events (rows t) [] ?w1")
  with k have w2: "w2 = ?w1\<lparr>uuid_next := k\<rparr>" by simp
  have c1: "connect (w\<lparr>regenerations := Suc (regenerations w)\<rparr>) = connect w"
    by (simp add: connect_def)
  from Some cw show ?thesis
    by (cases c) (auto simp: generate_calendar_def Let_def c1 w2 task_rows_def connect_def
        split: sum.splits)
qed

lemma add_event_task_rows: "task_rows (snd (add_event n s w)) = task_rows w"
  by (simp add: add_event_def Let_def generate_calendar_task_rows task_rows_simps
      split: option.splits)

lemma dispatch_task_rows:
  "task_rows (snd (dispatch a w)) = task_rows w \<or>
   (\<exists>d s dt t. a = Add_task d s \<and> fromisoformat s = Some dt \<and>
      task_rows (snd (dispatch a w)) =
        task_rows w @ [\<lparr>task_id = t, task_description = d,
                        task_expires = date_isoformat (date_of dt)\<rparr>])"
proof (cases a)
  case (Add_task d s)
  then show ?thesis
    by (auto simp: add_task_def Let_def task_rows_def connect_def insert_row_def
        split: option.splits)
next
  case List_tasks
  from print_tasks_stdout_only obtain ls where
    "snd (print_tasks (sort_key task_expires (task_rows w)) (w\<lparr>db_file := Some (connect w)\<rparr>)) =
       (w\<lparr>db_file := Some (connect w)\<rparr>)\<lparr>stdout := stdout (w\<lparr>db_file := Some (connect w)\<rparr>) @ ls\<rparr>"
    by blast
  with List_tasks show ?thesis
    by (auto simp: list_tasks_def Let_def task_rows_def connect_def split: option.splits)
next
  case (Add_note n)
  then show ?thesis
    by (simp add: add_note_def Let_def task_rows_simps split: option.splits)
next
  case List_notes
  then show ?thesis
    by (simp add: list_notes_def Let_def fold_print task_rows_def connect_def split: option.splits)
next
  case (Add_event n t)
  then show ?thesis by (simp add: add_event_task_rows)
next
  case List_events
  then show ?thesis
    by (simp add: list_events_def Let_def fold_print task_rows_def connect_def split: option.splits)
next
  case (Add_storage n)
  from path_mkdir_files_only [of "joinpath STORAGE_DIR n" w] obtain f where
    "snd (path_mkdir (joinpath STORAGE_DIR n) w) = w\<lparr>files := f\<rparr>" by blast
  with Add_storage show ?thesis
    by (auto simp: add_storage_def Let_def print_def task_rows_def connect_def
        split: prod.splits outcome.splits)
next
  case (Add_doc l f st)
  have "task_rows (snd (add_document l f st w)) = task_rows w"
    by (cases l f st w rule: add_document_cases)
      (simp_all add: task_rows_def connect_def print_def)
  with Add_doc show ?thesis by simp
next
  case List_docs
  then show ?thesis
    by (simp add: list_documents_def Let_def fold_print task_rows_def connect_def
        split: option.splits)
next
  case No_command
  then show ?thesis by (simp add: task_rows_simps)
qed

lemma main_preserves_tasks_ok:
  assumes "tasks_ok w"
  shows "tasks_ok (snd (main av w))"
proof (cases "parse_args av")
  case (Inl status)
  with assms show ?thesis
    by (simp add: main_def Let_def tasks_ok_def task_rows_simps init_db_rows)
next
  case (Inr a)
  let ?w0 = "init_db w"
  have s: "snd (main av w) = snd (dispatch a ?w0)"
    using Inr by (simp add: main_def Let_def split: prod.splits outcome.splits)
  from assms have ok0: "tasks_ok ?w0"
    by (simp add: tasks_ok_def init_db_rows)
  from dispatch_task_rows [of a ?w0] show ?thesis
  proof
    assume "task_rows (snd (dispatch a ?w0)) = task_rows ?w0"
    with ok0 s show ?thesis by (simp add: tasks_ok_def)
  next
    assume "\<exists>d s dt t. a = Add_task d s \<and> fromisoformat s = Some dt \<and>
      task_rows (snd (dispatch a ?w0)) =
        task_rows ?w0 @ [\<lparr>task_id = t, task_description = d,
                         task_expires = date_isoformat (date_of dt)\<rparr>]"
    then obtain d s' dt t where dt: "fromisoformat s' = Some dt"
      and r: "task_rows (snd (dispatch a ?w0)) =
        task_rows ?w0 @ [\<lparr>task_id = t, task_description = d,
                         task_expires = date_isoformat (date_of dt)\<rparr>]"
      by blast
    from fromisoformat_valid [OF dt] have "valid_date (date_of dt)"
      by (simp add: valid_datetime_def)
    then have "stored_date_text (date_isoformat (date_of dt))"
      by (rule stored_date_text_isoformat)
    with ok0 r s show ?thesis by (simp add: tasks_ok_def)
  qed
qed

lemma main_argv_preserves_tasks_ok:
  assumes "tasks_ok w"
  shows "tasks_ok (snd (main_argv ss w))"
proof (cases "scan_args ss")
  case (Exit_help c)
  with assms show ?thesis
    by (simp add: main_argv_def Let_def tasks_ok_def task_rows_simps init_db_rows)
next
  case Exit_usage
  with assms show ?thesis
    by (simp add: main_argv_def Let_def tasks_ok_def task_rows_simps init_db_rows)
next
  case (Scanned c ops st)
  show ?thesis
  proof (cases "words ops")
    case (Some ws)
    with Scanned main_preserves_tasks_ok [OF assms, of "Argv c ws st"] show ?thesis
      by (simp add: main_argv_def Let_def)
  next
    case None
    let ?p = "joinpath STORAGE_DIR (storage_or_empty st)"
    from path_mkdir_files_only [of ?p "init_db w"] obtain f where
      "snd (path_mkdir ?p (init_db w)) = (init_db w)\<lparr>files := f\<rparr>" by blast
    with Scanned None assms show ?thesis
      by (simp add: main_argv_def Let_def tasks_ok_def task_rows_simps init_db_rows)
  qed
qed

lemma tasks_ok_fresh: "db_file w = None \<Longrightarrow> tasks_ok w"
  by (simp add: tasks_ok_def task_rows_def connect_def empty_database_def)

lemma tasks_ok_due:
  assumes "tasks_ok w" and "tasks_table (connect w) = Some t"
  shows "\<forall>r \<in> set (rows t). valid_date (due_date r) \<and> task_expires r = date_isoformat (due_date r)"
  using assms by (auto simp: tasks_ok_def task_rows_def list_all_iff stored_date_text_due)

lemma list_tasks_of_written_store:
  assumes "tasks_ok w" and "tasks_table (connect w) = Some t"
  shows "list_tasks w =
           (Returned,
            fold (\<lambda>r. print (task_line r
                   (if date_less (due_date r) (clock_today w) then ''EXPIRED'' else [])))
              (sort_key task_expires (rows t)) (w\<lparr>db_file := Some (connect w)\<rparr>))"
proof -
  have "\<forall>r \<in> set (sort_key task_expires (rows t)).
          valid_date (due_date r) \<and> task_expires r = date_isoformat (due_date r)"
    using tasks_ok_due [OF assms] by simp
  from print_tasks_valid [OF this] assms(2) show ?thesis
    by (simp add: list_tasks_def Let_def)
qed

section \<open>The events the program writes\<close>

text \<open>
  The time text of a row is \<open>isoformat\<close> of the date-time that \<open>add_event\<close> parsed, a valid
  one.
\<close>

lemma add_event_stores_isoformat:
  assumes "fromisoformat s = Some dt" and "events_table (connect w) = Some t"
  shows "event_rows (snd (add_event n s w)) =
           rows t @ [\<lparr>event_id = Suc (seq t), event_name = n, event_time = isoformat dt\<rparr>] \<and>
         valid_datetime dt"
proof -
  let ?w1 = "w\<lparr>db_file := Some ((connect w)\<lparr>events_table := Some (insert_row
      (\<lambda>i. \<lparr>event_id = i, event_name = n, event_time = isoformat dt\<rparr>) t)\<rparr>)\<rparr>"
  obtain r w' where g: "generate_calendar ?w1 = (r, w')"
    by (cases "generate_calendar ?w1")
  from generate_calendar_effect [OF g] have "event_rows w' = event_rows ?w1" by simp
  moreover have "event_rows ?w1 =
      rows t @ [\<lparr>event_id = Suc (seq t), event_name = n, event_time = isoformat dt\<rparr>]"
    by (simp add: event_rows_def connect_def insert_row_def)
  moreover from assms g have "snd (add_event n s w) = w'"
    by (simp add: add_event_def Let_def)
  ultimately show ?thesis
    using fromisoformat_valid [OF assms(1)] by simp
qed

end
